theory Spec2Isabelle
  imports Complex_Main "HOL-Library.Multiset"
begin

section \<open>Smart Travel Planner: the itinerary core of script.js\<close>

text \<open>
  The development embeds the state-carrying core of \<^verbatim>\<open>src/script.js\<close>: the itinerary
  builder inside \<^verbatim>\<open>handlePlan\<close>, the day lists drawn by \<^verbatim>\<open>createItineraryUI\<close>, the marker
  table kept by \<^verbatim>\<open>createMarkers\<close> and \<^verbatim>\<open>updateMarkerColors\<close>, the two drag handlers,
  \<^verbatim>\<open>toggleVisited\<close>, and \<^verbatim>\<open>saveTrip\<close> / \<^verbatim>\<open>loadTrip\<close>.

  Coordinates are reals and counts and day indices are naturals, so counts beyond \<open>2^53\<close>
  are outside the model. A distance is a double that the script computes and may be
  \<^verbatim>\<open>NaN\<close>; the arithmetic of doubles is a parameter of the builder. Where the script itself
  can produce a value that is not a day index (a division by zero, a missing table entry),
  the model has a constructor for it.
\<close>

subsection \<open>Data model\<close>

text \<open>An element of the Overpass answer: \<^verbatim>\<open>{id, lat, lon, tags}\<close>; \<^verbatim>\<open>tags\<close> may be absent.\<close>

record element =
  el_id :: int
  el_lat :: real
  el_lon :: real
  el_tags :: "(string \<times> string) list option"

text \<open>
  An element that passed \<^verbatim>\<open>el.tags && el.tags.name\<close>: its tags are present and its name is a
  non-empty string.
\<close>

record candidate =
  c_id :: int
  c_lat :: real
  c_lon :: real
  c_tags :: "(string \<times> string) list"
  c_name :: string

text \<open>
  The value of a POI's \<^verbatim>\<open>day\<close> field. \<open>Day d\<close> is the number \<open>d\<close>; \<open>DayNonFinite\<close> is
  \<^verbatim>\<open>NaN\<close> or \<^verbatim>\<open>Infinity\<close> (what a division by zero leaves); \<open>DayUndefined\<close> is \<^verbatim>\<open>undefined\<close>
  (what a lookup of a missing key leaves).
\<close>

datatype dayval = Day nat | DayNonFinite | DayUndefined

record poi =
  poi_id :: string
  poi_name :: string
  lat :: real
  lon :: real
  tags :: "(string \<times> string) list"
  day :: dayval
  visited :: bool
  descriptionLoaded :: bool
  description :: string

subsection \<open>Numbers that may be NaN\<close>

text \<open>
  A value of a double computation: a number or \<^verbatim>\<open>NaN\<close>. Infinite values need an overflow
  or a division by zero, which the distance computation does not contain; they are
  outside the model.
\<close>

datatype jsnum = Num real | NaN

fun is_number :: "jsnum \<Rightarrow> bool" where
  "is_number (Num x) = True"
| "is_number NaN = False"

text \<open>\<^verbatim>\<open>a <= b\<close>: false as soon as one side is \<^verbatim>\<open>NaN\<close>.\<close>

fun js_le :: "jsnum \<Rightarrow> jsnum \<Rightarrow> bool" where
  "js_le (Num x) (Num y) = (x \<le> y)"
| "js_le _ _ = False"

fun lift1 :: "(real \<Rightarrow> real) \<Rightarrow> jsnum \<Rightarrow> jsnum" where
  "lift1 f (Num x) = Num (f x)"
| "lift1 f NaN = NaN"

fun lift2 :: "(real \<Rightarrow> real \<Rightarrow> real) \<Rightarrow> jsnum \<Rightarrow> jsnum \<Rightarrow> jsnum" where
  "lift2 f (Num x) (Num y) = Num (f x y)"
| "lift2 f _ _ = NaN"

text \<open>
  The operations of the platform that \<^verbatim>\<open>haversine\<close> calls: the four operators on doubles
  and \<^verbatim>\<open>Math.sin\<close>, \<^verbatim>\<open>Math.cos\<close>, \<^verbatim>\<open>Math.sqrt\<close>, \<^verbatim>\<open>Math.atan2\<close>, \<^verbatim>\<open>Math.PI\<close>. Each rounds its
  result, so the builder takes them as a parameter and the properties of the builder are
  proved for every such arithmetic.
\<close>

record arith =
  d_add :: "jsnum \<Rightarrow> jsnum \<Rightarrow> jsnum"
  d_sub :: "jsnum \<Rightarrow> jsnum \<Rightarrow> jsnum"
  d_mul :: "jsnum \<Rightarrow> jsnum \<Rightarrow> jsnum"
  d_div :: "jsnum \<Rightarrow> jsnum \<Rightarrow> jsnum"
  Math_sin :: "jsnum \<Rightarrow> jsnum"
  Math_cos :: "jsnum \<Rightarrow> jsnum"
  Math_sqrt :: "jsnum \<Rightarrow> jsnum"
  Math_atan2 :: "jsnum \<Rightarrow> jsnum \<Rightarrow> jsnum"
  Math_PI :: jsnum

subsection \<open>Distance utility\<close>

definition toRad :: "arith \<Rightarrow> jsnum \<Rightarrow> jsnum" where
  "toRad fp deg = d_div fp (d_mul fp deg (Math_PI fp)) (Num 180)"

definition haversine :: "arith \<Rightarrow> real \<Rightarrow> real \<Rightarrow> real \<Rightarrow> real \<Rightarrow> jsnum" where
  "haversine fp lat1 lon1 lat2 lon2 =
     (let R = Num 6371;
          dLat = toRad fp (d_sub fp (Num lat2) (Num lat1));
          dLon = toRad fp (d_sub fp (Num lon2) (Num lon1));
          a = d_add fp
                (d_mul fp (Math_sin fp (d_div fp dLat (Num 2)))
                          (Math_sin fp (d_div fp dLat (Num 2))))
                (d_mul fp
                   (d_mul fp
                      (d_mul fp (Math_cos fp (toRad fp (Num lat1)))
                                (Math_cos fp (toRad fp (Num lat2))))
                      (Math_sin fp (d_div fp dLon (Num 2))))
                   (Math_sin fp (d_div fp dLon (Num 2))));
          c = d_mul fp (Num 2)
                (Math_atan2 fp (Math_sqrt fp a) (Math_sqrt fp (d_sub fp (Num 1) a)))
      in d_mul fp R c)"

subsection \<open>Two arithmetics\<close>

text \<open>\<^verbatim>\<open>Math.atan2(y, x)\<close> on reals.\<close>

definition atan2 :: "real \<Rightarrow> real \<Rightarrow> real" where
  "atan2 y x =
     (if 0 < x then arctan (y / x)
      else if x < 0 then (if 0 \<le> y then arctan (y / x) + pi else arctan (y / x) - pi)
      else if 0 < y then pi / 2
      else if y < 0 then - pi / 2
      else 0)"

text \<open>\<^verbatim>\<open>Math.sqrt\<close> of a negative number is \<^verbatim>\<open>NaN\<close>.\<close>

fun exact_sqrt :: "jsnum \<Rightarrow> jsnum" where
  "exact_sqrt (Num x) = (if x < 0 then NaN else Num (sqrt x))"
| "exact_sqrt NaN = NaN"

text \<open>
  A quotient by zero is infinite or \<^verbatim>\<open>NaN\<close> in doubles and \<^verbatim>\<open>NaN\<close> here; \<^verbatim>\<open>haversine\<close> divides
  by 180 and by 2 only.
\<close>

fun exact_div :: "jsnum \<Rightarrow> jsnum \<Rightarrow> jsnum" where
  "exact_div (Num x) (Num y) = (if y = 0 then NaN else Num (x / y))"
| "exact_div _ _ = NaN"

text \<open>The arithmetic without rounding.\<close>

definition arith_exact :: arith where
  "arith_exact =
     \<lparr>d_add = lift2 (+), d_sub = lift2 (-), d_mul = lift2 (*), d_div = exact_div,
      Math_sin = lift1 sin, Math_cos = lift1 cos, Math_sqrt = exact_sqrt,
      Math_atan2 = lift2 atan2, Math_PI = Num pi\<rparr>"

text \<open>
  An arithmetic within the rounding bound of doubles, where every result is the exact one
  times \<open>1 + \<delta>\<close> with \<open>\<bar>\<delta>\<bar> \<le> 1 / 2 ^ 53\<close>: it is exact but for the addition, which errs upwards
  by the whole bound. Between the point \<open>(8, 0)\<close> and its antipode the doubles of the
  script compute \<^verbatim>\<open>a = 1.0000000000000002\<close>; this arithmetic too puts \<^verbatim>\<open>a\<close> above 1 there.
\<close>

definition arith_add_up :: arith where
  "arith_add_up =
     arith_exact\<lparr>d_add := \<lambda>x y. lift2 (*) (lift2 (+) x y) (Num (1 + 1 / 2 ^ 53))\<rparr>"

subsection \<open>Itinerary builder (handlePlan, from the Overpass answer to places)\<close>

text \<open>
  \<^verbatim>\<open>Array.prototype.sort\<close> with a comparator. The sort reads a comparator result that is
  \<^verbatim>\<open>NaN\<close> as \<open>0\<close>. It is stable: an element goes before another when the result is negative
  and keeps its place when it is zero. It is written as an insertion sort from the right,
  which computes the one list a stable sort can return for a consistent comparator. For
  an inconsistent comparator the order is left to the engine; what holds of every engine
  is that the result is a permutation of the input.
\<close>

definition SortCompare :: "jsnum \<Rightarrow> real" where
  "SortCompare v = (case v of NaN \<Rightarrow> 0 | Num r \<Rightarrow> r)"

fun insert_cmp :: "('a \<Rightarrow> 'a \<Rightarrow> jsnum) \<Rightarrow> 'a \<Rightarrow> 'a list \<Rightarrow> 'a list" where
  "insert_cmp cmp x [] = [x]"
| "insert_cmp cmp x (y # ys) =
     (if SortCompare (cmp x y) \<le> 0 then x # y # ys else y # insert_cmp cmp x ys)"

definition Array_sort :: "('a \<Rightarrow> 'a \<Rightarrow> jsnum) \<Rightarrow> 'a list \<Rightarrow> 'a list" where
  "Array_sort cmp xs = foldr (insert_cmp cmp) xs []"

text \<open>
  The comparator \<^verbatim>\<open>(a, b) => a.distance - b.distance\<close>. The difference of two doubles has
  the sign of their exact difference, and it is \<^verbatim>\<open>NaN\<close> when one of them is.
\<close>

definition by_distance :: "jsnum \<times> 'a \<Rightarrow> jsnum \<times> 'a \<Rightarrow> jsnum" where
  "by_distance a b = lift2 (-) (fst a) (fst b)"

text \<open>\<^verbatim>\<open>Number.prototype.toString()\<close> of an integer: its decimal digits.\<close>

function digits10 :: "nat \<Rightarrow> string" where
  "digits10 n =
     (if n < 10 then [char_of (48 + n)]
      else digits10 (n div 10) @ [char_of (48 + n mod 10)])"
  by pat_completeness auto
termination
  by (relation "measure id") auto

declare digits10.simps [simp del]

definition toString :: "int \<Rightarrow> string" where
  "toString i = (if i < 0 then CHR ''-'' # digits10 (nat (- i)) else digits10 (nat i))"

text \<open>The filter \<^verbatim>\<open>el => el.tags && el.tags.name\<close>, keeping what it has checked.\<close>

definition named :: "element \<Rightarrow> candidate option" where
  "named el =
     (case el_tags el of
        None \<Rightarrow> None
      | Some ts \<Rightarrow>
          (case map_of ts ''name'' of
             None \<Rightarrow> None
           | Some n \<Rightarrow>
               if n = [] then None
               else Some \<lparr>c_id = el_id el, c_lat = el_lat el, c_lon = el_lon el,
                          c_tags = ts, c_name = n\<rparr>))"

definition surviving :: "element list \<Rightarrow> candidate list" where
  "surviving elements = List.map_filter named elements"

text \<open>\<^verbatim>\<open>el.distance = haversine(lat, lon, el.lat, el.lon)\<close> for every surviving element.\<close>

definition with_distance ::
  "arith \<Rightarrow> real \<Rightarrow> real \<Rightarrow> candidate list \<Rightarrow> (jsnum \<times> candidate) list" where
  "with_distance fp lat0 lon0 cs =
     map (\<lambda>c. (haversine fp lat0 lon0 (c_lat c) (c_lon c), c)) cs"

definition sorted_elements ::
  "arith \<Rightarrow> real \<Rightarrow> real \<Rightarrow> element list \<Rightarrow> (jsnum \<times> candidate) list" where
  "sorted_elements fp lat0 lon0 elements =
     Array_sort by_distance (with_distance fp lat0 lon0 (surviving elements))"

text \<open>
  \<^verbatim>\<open>Math.floor(index / Math.ceil(maxPOIs / days))\<close>. The divisions by zero are written
  out: \<^verbatim>\<open>0 / 0\<close> is \<^verbatim>\<open>NaN\<close>, \<^verbatim>\<open>n / 0\<close> is \<^verbatim>\<open>Infinity\<close> and \<^verbatim>\<open>index / Infinity\<close> is \<open>0\<close>.
\<close>

definition dayIndex :: "nat \<Rightarrow> nat \<Rightarrow> nat \<Rightarrow> dayval" where
  "dayIndex index maxPOIs days =
     (if days = 0 then (if maxPOIs = 0 then DayNonFinite else Day 0)
      else
        let bucket = \<lceil>real maxPOIs / real days\<rceil> in
        if bucket = 0 then DayNonFinite
        else Day (nat \<lfloor>real index / real_of_int bucket\<rfloor>))"

definition makePOI :: "nat \<Rightarrow> nat \<Rightarrow> nat \<Rightarrow> candidate \<Rightarrow> poi" where
  "makePOI maxPOIs days index el =
     \<lparr>poi_id = toString (c_id el), poi_name = c_name el, lat = c_lat el, lon = c_lon el,
      tags = c_tags el, day = dayIndex index maxPOIs days, visited = False,
      descriptionLoaded = False, description = []\<rparr>"

definition handlePlan_places ::
  "arith \<Rightarrow> real \<Rightarrow> real \<Rightarrow> nat \<Rightarrow> element list \<Rightarrow> poi list" where
  "handlePlan_places fp lat0 lon0 days elements =
     (let els = sorted_elements fp lat0 lon0 elements;
          maxPOIs = min (length els) (days * 5);
          chosen = take maxPOIs els
      in map (\<lambda>(index, el). makePOI maxPOIs days index (snd el)) (enumerate 0 chosen))"

subsection \<open>Day lists (createItineraryUI)\<close>

text \<open>
  \<^verbatim>\<open>createItineraryUI\<close> draws one list per day \<open>d < currentDays\<close> and appends every place
  to the list whose index is its \<^verbatim>\<open>day\<close>; a place whose day has no list is not drawn. It
  returns at once when \<^verbatim>\<open>currentDays\<close> is \<^verbatim>\<open>null\<close> or \<open>0\<close>.
\<close>

definition createItineraryUI :: "nat option \<Rightarrow> poi list \<Rightarrow> poi list list" where
  "createItineraryUI currentDays ps =
     (case currentDays of
        None \<Rightarrow> []
      | Some days \<Rightarrow> map (\<lambda>d. filter (\<lambda>p. day p = Day d) ps) [0..<days])"

subsection \<open>Map markers (createMarkers, updateMarkerColors)\<close>

text \<open>
  A Leaflet marker as the script builds it: its position and the colour written into its
  icon. The table \<^verbatim>\<open>markers\<close> maps a POI id to its marker; the script adds a marker to the
  map when it enters the table and removes it from the map when it leaves, so the table
  is the set of markers shown.
\<close>

record marker =
  mk_lat :: real
  mk_lon :: real
  mk_color :: string

definition dayColors :: "string list" where
  "dayColors = [''#e74c3c'', ''#3498db'', ''#27ae60'', ''#f39c12'',
                ''#9b59b6'', ''#1abc9c'', ''#e67e22'', ''#8e44ad'']"

text \<open>
  \<^verbatim>\<open>dayColors[p.day % dayColors.length]\<close> as the icon's template string prints it: a day
  that is not a number indexes nothing, and \<^verbatim>\<open>undefined\<close> prints as that word.
\<close>

definition dayColor :: "dayval \<Rightarrow> string" where
  "dayColor d = (case d of Day n \<Rightarrow> dayColors ! (n mod length dayColors) | _ \<Rightarrow> ''undefined'')"

definition newMarker :: "poi \<Rightarrow> marker" where
  "newMarker p = \<lparr>mk_lat = lat p, mk_lon = lon p, mk_color = dayColor (day p)\<rparr>"

subsection \<open>Persistence: JSON values and stored texts\<close>

datatype json =
  JNull | JBool bool | JNum real | JStr string | JArr "json list" | JObj "(string \<times> json) list"

text \<open>
  A string held by \<^verbatim>\<open>localStorage\<close>, identified by what \<^verbatim>\<open>JSON.parse\<close> makes of it: the
  empty string, a non-empty string that \<^verbatim>\<open>JSON.parse\<close> rejects, or a string that parses
  to a JSON value. \<^verbatim>\<open>JSON.stringify\<close> of a value built from null, booleans, finite numbers,
  strings, arrays and plain objects returns a string that parses to that value; both are
  functions of the platform, not of the script. \<^verbatim>\<open>localStorage.setItem\<close> is taken to
  accept every write.
\<close>

datatype stored = Empty | Unparseable | Parses json

datatype js_error = SyntaxError | TypeError

definition JSON_parse :: "stored \<Rightarrow> js_error + json" where
  "JSON_parse s = (case s of Parses v \<Rightarrow> Inr v | _ \<Rightarrow> Inl SyntaxError)"

definition JSON_stringify :: "json \<Rightarrow> stored" where
  "JSON_stringify v = Parses v"

subsection \<open>Program state\<close>

text \<open>
  The state variables of the script that the itinerary core reads and writes, and
  \<^verbatim>\<open>localStorage\<close>. \<^verbatim>\<open>null\<close> is \<open>None\<close>.
\<close>

record state =
  places :: "poi list"
  markers :: "string \<rightharpoonup> marker"
  currentTripKey :: "string option"
  currentDest :: "string option"
  currentDays :: "nat option"
  currentMode :: string
  localStorage :: "string \<rightharpoonup> stored"

definition createMarkers :: "state \<Rightarrow> state" where
  "createMarkers st =
     st\<lparr>markers :=
          fold (\<lambda>p m. if visited p then m else m(poi_id p \<mapsto> newMarker p)) (places st) Map.empty\<rparr>"

definition updateMarkerColors :: "state \<Rightarrow> state" where
  "updateMarkerColors st =
     st\<lparr>markers :=
          fold (\<lambda>p m.
                  case m (poi_id p) of
                    None \<Rightarrow> m
                  | Some mk \<Rightarrow>
                      if visited p then m(poi_id p := None)
                      else m(poi_id p \<mapsto> mk\<lparr>mk_color := dayColor (day p)\<rparr>))
               (places st) (markers st)\<rparr>"

subsection \<open>saveTrip\<close>

text \<open>
  The JSON that \<^verbatim>\<open>JSON.stringify\<close> writes for a place. A \<^verbatim>\<open>day\<close> that is \<^verbatim>\<open>undefined\<close> is left
  out and one that is \<^verbatim>\<open>NaN\<close> or \<^verbatim>\<open>Infinity\<close> is written as \<^verbatim>\<open>null\<close>.
\<close>

definition day_json :: "dayval \<Rightarrow> (string \<times> json) list" where
  "day_json d =
     (case d of
        Day n \<Rightarrow> [(''day'', JNum (real n))]
      | DayNonFinite \<Rightarrow> [(''day'', JNull)]
      | DayUndefined \<Rightarrow> [])"

definition poi_json :: "poi \<Rightarrow> json" where
  "poi_json p =
     JObj ([(''id'', JStr (poi_id p)), (''name'', JStr (poi_name p)),
            (''lat'', JNum (lat p)), (''lon'', JNum (lon p)),
            (''tags'', JObj (map (\<lambda>(k, v). (k, JStr v)) (tags p)))]
           @ day_json (day p)
           @ [(''visited'', JBool (visited p)),
              (''descriptionLoaded'', JBool (descriptionLoaded p)),
              (''description'', JStr (description p))])"

definition dest_json :: "string option \<Rightarrow> json" where
  "dest_json d = (case d of None \<Rightarrow> JNull | Some s \<Rightarrow> JStr s)"

definition days_json :: "nat option \<Rightarrow> json" where
  "days_json d = (case d of None \<Rightarrow> JNull | Some n \<Rightarrow> JNum (real n))"

text \<open>\<^verbatim>\<open>{ places: places, dest: currentDest, days: currentDays, mode: currentMode }\<close>\<close>

definition trip_json :: "state \<Rightarrow> json" where
  "trip_json st =
     JObj [(''places'', JArr (map poi_json (places st))),
           (''dest'', dest_json (currentDest st)),
           (''days'', days_json (currentDays st)),
           (''mode'', JStr (currentMode st))]"

text \<open>\<^verbatim>\<open>!currentTripKey\<close> holds for \<^verbatim>\<open>null\<close> and for the empty string.\<close>

definition saveTrip :: "state \<Rightarrow> state" where
  "saveTrip st =
     (case currentTripKey st of
        None \<Rightarrow> st
      | Some k \<Rightarrow>
          if k = [] then st
          else st\<lparr>localStorage := (localStorage st)(k \<mapsto> JSON_stringify (trip_json st))\<rparr>)"

subsection \<open>loadTrip\<close>

text \<open>
  \<^verbatim>\<open>loadTrip\<close> assigns whatever the stored text holds, so the four trip variables are
  JavaScript values here: a JSON value, or \<open>None\<close> for \<^verbatim>\<open>undefined\<close>.
\<close>

record trip_vars =
  v_places :: "json option"
  v_dest :: "json option"
  v_days :: "json option"
  v_mode :: "json option"

definition truthy :: "json option \<Rightarrow> bool" where
  "truthy v =
     (case v of
        None \<Rightarrow> False
      | Some JNull \<Rightarrow> False
      | Some (JBool b) \<Rightarrow> b
      | Some (JNum x) \<Rightarrow> x \<noteq> 0
      | Some (JStr s) \<Rightarrow> s \<noteq> []
      | Some (JArr _) \<Rightarrow> True
      | Some (JObj _) \<Rightarrow> True)"

text \<open>\<^verbatim>\<open>a || b\<close>\<close>

definition js_or :: "json option \<Rightarrow> json option \<Rightarrow> json option" where
  "js_or a b = (if truthy a then a else b)"

text \<open>
  \<^verbatim>\<open>data.places\<close>, \<^verbatim>\<open>data.dest\<close>, \<^verbatim>\<open>data.days\<close>, \<^verbatim>\<open>data.mode\<close>: reading one of these four
  properties throws a \<^verbatim>\<open>TypeError\<close> on \<^verbatim>\<open>null\<close>, finds the entry or \<^verbatim>\<open>undefined\<close> on an object,
  and is \<^verbatim>\<open>undefined\<close> on a boolean, a number, a string or an array.
\<close>

definition get_prop :: "json \<Rightarrow> string \<Rightarrow> js_error + json option" where
  "get_prop data name =
     (case data of
        JNull \<Rightarrow> Inl TypeError
      | JObj kvs \<Rightarrow> Inr (map_of kvs name)
      | _ \<Rightarrow> Inr None)"

text \<open>
  The body of the \<^verbatim>\<open>try\<close> up to the last assignment. What follows in the \<^verbatim>\<open>try\<close> (the
  three input fields, \<^verbatim>\<open>createItineraryUI\<close>, \<^verbatim>\<open>createMarkers\<close>) writes none of the four
  variables, and an exception there is caught by the same \<^verbatim>\<open>catch\<close>.
\<close>

definition loadTrip_try :: "stored \<Rightarrow> js_error + trip_vars" where
  "loadTrip_try dataStr =
     (case JSON_parse dataStr of
        Inl e \<Rightarrow> Inl e
      | Inr data \<Rightarrow>
          (case get_prop data ''places'' of
             Inl e \<Rightarrow> Inl e
           | Inr pl \<Rightarrow>
               (case (get_prop data ''dest'', get_prop data ''days'', get_prop data ''mode'') of
                  (Inr de, Inr da, Inr mo) \<Rightarrow>
                    Inr \<lparr>v_places = js_or pl (Some (JArr [])), v_dest = de, v_days = da,
                         v_mode = js_or mo (Some (JStr ''driving''))\<rparr>
                | _ \<Rightarrow> Inl TypeError)))"

definition loadTrip :: "string option \<Rightarrow> (string \<rightharpoonup> stored) \<Rightarrow> trip_vars \<Rightarrow> trip_vars" where
  "loadTrip key store v =
     (case key of
        None \<Rightarrow> v
      | Some k \<Rightarrow>
          if k = [] then v
          else
            (case store k of
               None \<Rightarrow> v
             | Some dataStr \<Rightarrow>
                 if dataStr = Empty then v
                 else (case loadTrip_try dataStr of Inl e \<Rightarrow> v | Inr v' \<Rightarrow> v')))"

text \<open>The four trip variables of a state, as JavaScript values.\<close>

definition vars_of :: "state \<Rightarrow> trip_vars" where
  "vars_of st =
     \<lparr>v_places = Some (JArr (map poi_json (places st))),
      v_dest = Some (dest_json (currentDest st)),
      v_days = Some (days_json (currentDays st)),
      v_mode = Some (JStr (currentMode st))\<rparr>"

text \<open>
  The invariants of section 3 of the specification: a place lies on a day below the day
  count; a valid trip has a key, a destination, a positive day count and a travel mode,
  and all its places lie on its days.
\<close>

definition on_day_below :: "nat \<Rightarrow> poi \<Rightarrow> bool" where
  "on_day_below n p = (case day p of Day i \<Rightarrow> i < n | _ \<Rightarrow> False)"

definition valid_trip :: "state \<Rightarrow> bool" where
  "valid_trip st =
     (case (currentTripKey st, currentDest st, currentDays st) of
        (Some k, Some d, Some n) \<Rightarrow>
          k \<noteq> [] \<and> 0 < n \<and> currentMode st \<noteq> [] \<and> list_all (on_day_below n) (places st)
      | _ \<Rightarrow> False)"

text \<open>
  The specification's notion of a stored trip payload, read generously: a text that parses
  to an object with an array \<^verbatim>\<open>places\<close>, a string \<^verbatim>\<open>dest\<close>, a number \<^verbatim>\<open>days\<close> and a string
  \<^verbatim>\<open>mode\<close>. It is not part of the script, which checks none of this.
\<close>

definition well_formed_payload :: "stored \<Rightarrow> bool" where
  "well_formed_payload s =
     (case s of
        Parses (JObj kvs) \<Rightarrow>
          (case (map_of kvs ''places'', map_of kvs ''dest'', map_of kvs ''days'',
                 map_of kvs ''mode'') of
             (Some (JArr _), Some (JStr _), Some (JNum _), Some (JStr _)) \<Rightarrow> True
           | _ \<Rightarrow> False)
      | _ \<Rightarrow> False)"

subsection \<open>Visited toggle and the two drag handlers\<close>

text \<open>
  \<^verbatim>\<open>places.find(pl => pl.id === id)\<close> returns the first place with that id, and the
  assignment that follows changes that object where it stands in \<^verbatim>\<open>places\<close>.
\<close>

fun update_first :: "('a \<Rightarrow> bool) \<Rightarrow> ('a \<Rightarrow> 'a) \<Rightarrow> 'a list \<Rightarrow> 'a list" where
  "update_first P f [] = []"
| "update_first P f (x # xs) = (if P x then f x # xs else x # update_first P f xs)"

text \<open>
  The update of the item's classes in the itinerary list changes the page only and is
  not part of the state.
\<close>

definition toggleVisited :: "string \<Rightarrow> state \<Rightarrow> state" where
  "toggleVisited i st =
     (case find (\<lambda>pl. poi_id pl = i) (places st) of
        None \<Rightarrow> st
      | Some p \<Rightarrow>
          saveTrip (updateMarkerColors
            (st\<lparr>places := update_first (\<lambda>pl. poi_id pl = i)
                              (\<lambda>p. p\<lparr>visited := \<not> visited p\<rparr>) (places st)\<rparr>)))"

text \<open>
  \<^verbatim>\<open>onEnd\<close> of a POI list: \<open>poiId\<close> is the dragged item's \<^verbatim>\<open>data-id\<close>, \<open>newDayIndex\<close> the
  \<^verbatim>\<open>data-day-index\<close> of the list it was dropped on.
\<close>

definition poiList_onEnd :: "string \<Rightarrow> nat \<Rightarrow> state \<Rightarrow> state" where
  "poiList_onEnd poiId newDayIndex st =
     (case find (\<lambda>pl. poi_id pl = poiId) (places st) of
        None \<Rightarrow> st
      | Some p \<Rightarrow>
          saveTrip (updateMarkerColors
            (st\<lparr>places := update_first (\<lambda>pl. poi_id pl = poiId)
                              (\<lambda>p. p\<lparr>day := Day newDayIndex\<rparr>) (places st)\<rparr>)))"

text \<open>
  \<^verbatim>\<open>onEnd\<close> of the day containers: \<open>newOrder\<close> lists the \<^verbatim>\<open>data-day-index\<close> of the
  containers in the order the drag left them. \<^verbatim>\<open>mapping[oldIndex] = newIndex\<close> is filled
  from left to right, then every place gets \<^verbatim>\<open>mapping[p.day]\<close>, which is \<^verbatim>\<open>undefined\<close> for
  a day the table does not have. The page is then drawn again from \<^verbatim>\<open>places\<close>, which
  writes no state variable; the markers are recoloured and the trip is saved.
\<close>

definition day_mapping :: "nat list \<Rightarrow> (nat \<rightharpoonup> nat)" where
  "day_mapping newOrder =
     fold (\<lambda>(newIndex, oldIndex) mapping. mapping(oldIndex \<mapsto> newIndex))
          (enumerate 0 newOrder) Map.empty"

definition remap_day :: "(nat \<rightharpoonup> nat) \<Rightarrow> dayval \<Rightarrow> dayval" where
  "remap_day mapping d =
     (case d of
        Day n \<Rightarrow> (case mapping n of Some n' \<Rightarrow> Day n' | None \<Rightarrow> DayUndefined)
      | _ \<Rightarrow> DayUndefined)"

definition dayContainers_onEnd :: "nat list \<Rightarrow> state \<Rightarrow> state" where
  "dayContainers_onEnd newOrder st =
     saveTrip (updateMarkerColors
       (st\<lparr>places := map (\<lambda>p. p\<lparr>day := remap_day (day_mapping newOrder) (day p)\<rparr>) (places st)\<rparr>))"

text \<open>
  The container order that undoes \<open>newOrder\<close>: its entry at index \<open>j\<close> is the position
  of \<open>j\<close> in \<open>newOrder\<close>.
\<close>

fun position :: "nat \<Rightarrow> nat list \<Rightarrow> nat" where
  "position d [] = 0"
| "position d (x # xs) = (if x = d then 0 else Suc (position d xs))"

definition inverse_order :: "nat list \<Rightarrow> nat list" where
  "inverse_order newOrder = map (\<lambda>j. position j newOrder) [0..<length newOrder]"

subsection \<open>Sample data\<close>

text \<open>
  An Overpass answer around the origin \<open>(0, 0)\<close>: one place on the spot, two at the same
  point a quarter of the way round the equator, one half way round, an artwork with no
  name and a node with no tags.
\<close>

definition sample_elements :: "element list" where
  "sample_elements =
     [\<lparr>el_id = 30, el_lat = 0, el_lon = 180,
       el_tags = Some [(''tourism'', ''museum''), (''name'', ''Far'')]\<rparr>,
      \<lparr>el_id = 40, el_lat = 0, el_lon = 0, el_tags = Some [(''tourism'', ''artwork'')]\<rparr>,
      \<lparr>el_id = 10, el_lat = 0, el_lon = 0,
       el_tags = Some [(''name'', ''Near''), (''tourism'', ''zoo'')]\<rparr>,
      \<lparr>el_id = 50, el_lat = 0, el_lon = 90, el_tags = None\<rparr>,
      \<lparr>el_id = 25, el_lat = 0, el_lon = 90, el_tags = Some [(''name'', ''First'')]\<rparr>,
      \<lparr>el_id = 20, el_lat = 0, el_lon = 90, el_tags = Some [(''name'', ''Second'')]\<rparr>]"

definition sample_places :: "poi list" where
  "sample_places =
     [\<lparr>poi_id = ''10'', poi_name = ''Near'', lat = 0, lon = 0,
       tags = [(''name'', ''Near''), (''tourism'', ''zoo'')], day = Day 0, visited = False,
       descriptionLoaded = False, description = []\<rparr>,
      \<lparr>poi_id = ''25'', poi_name = ''First'', lat = 0, lon = 90,
       tags = [(''name'', ''First'')], day = Day 0, visited = False,
       descriptionLoaded = False, description = []\<rparr>,
      \<lparr>poi_id = ''20'', poi_name = ''Second'', lat = 0, lon = 90,
       tags = [(''name'', ''Second'')], day = Day 1, visited = False,
       descriptionLoaded = False, description = []\<rparr>,
      \<lparr>poi_id = ''30'', poi_name = ''Far'', lat = 0, lon = 180,
       tags = [(''tourism'', ''museum''), (''name'', ''Far'')], day = Day 1, visited = False,
       descriptionLoaded = False, description = []\<rparr>]"

text \<open>
  An answer around the origin \<open>(8, 0)\<close>: a place 16 degrees to the south, the antipode of
  the origin, and a place on the spot; and the same answer with the antipode first.
\<close>

definition antipode_elements :: "element list" where
  "antipode_elements =
     [\<lparr>el_id = 2, el_lat = - 8, el_lon = 0, el_tags = Some [(''name'', ''South'')]\<rparr>,
      \<lparr>el_id = 1, el_lat = - 8, el_lon = 180, el_tags = Some [(''name'', ''Antipode'')]\<rparr>,
      \<lparr>el_id = 3, el_lat = 8, el_lon = 0, el_tags = Some [(''name'', ''Here'')]\<rparr>]"

definition antipode_first_elements :: "element list" where
  "antipode_first_elements =
     [\<lparr>el_id = 1, el_lat = - 8, el_lon = 180, el_tags = Some [(''name'', ''Antipode'')]\<rparr>,
      \<lparr>el_id = 2, el_lat = - 8, el_lon = 0, el_tags = Some [(''name'', ''South'')]\<rparr>,
      \<lparr>el_id = 3, el_lat = 8, el_lon = 0, el_tags = Some [(''name'', ''Here'')]\<rparr>]"

text \<open>
  The state after planning the sample trip for user \<open>ann\<close>: three days in Rome, the places
  of the sample answer, no marker drawn yet and nothing stored.
\<close>

definition sample_state :: state where
  "sample_state =
     \<lparr>places = sample_places, markers = Map.empty,
      currentTripKey = Some ''ann_trip_Rome_3'', currentDest = Some ''Rome'',
      currentDays = Some 3, currentMode = ''driving'', localStorage = Map.empty\<rparr>"

section \<open>Properties\<close>

subsection \<open>Arithmetic of the day buckets\<close>

lemma ceil_div_int:
  fixes a b :: int
  assumes "0 < b"
  shows "- (- a div b) = (a + b - 1) div b"
proof (cases "a mod b = 0")
  case True
  have "b * (a div b) = a" using True by (simp add: mod_eq_0_iff_dvd)
  then have "a + b - 1 = b * (a div b) + (b - 1)" by simp
  then have "(a + b - 1) div b = a div b"
    using assms by (intro int_div_pos_eq[where r = "b - 1"]) auto
  then show ?thesis using assms True by (simp add: zdiv_zminus1_eq_if)
next
  case False
  have nn: "0 \<le> a mod b" using assms by (rule pos_mod_sign)
  have ub: "a mod b < b" using assms by (rule pos_mod_bound)
  have m: "0 < a mod b" "a mod b < b" using nn ub False by linarith+
  have "a = b * (a div b) + a mod b" by simp
  then have "a + b - 1 = b * (a div b + 1) + (a mod b - 1)" by (simp add: algebra_simps)
  then have "(a + b - 1) div b = a div b + 1"
    using m by (intro int_div_pos_eq[where r = "a mod b - 1"]) auto
  then show ?thesis using assms False by (simp add: zdiv_zminus1_eq_if)
qed

lemma ceiling_div_nat:
  assumes "0 < D"
  shows "\<lceil>real M / real D\<rceil> = int ((M + D - 1) div D)"
proof -
  have "\<lceil>real M / real D\<rceil> = \<lceil>real_of_int (int M) / real_of_int (int D)\<rceil>" by simp
  also have "\<dots> = - (- int M div int D)" by (rule ceiling_divide_eq_div)
  also have "\<dots> = (int M + int D - 1) div int D"
    using assms by (simp add: ceil_div_int)
  also have "\<dots> = int ((M + D - 1) div D)"
    using assms by (simp add: zdiv_int of_nat_diff)
  finally show ?thesis .
qed

lemma bucket_pos:
  fixes D M :: nat
  assumes "0 < D" "0 < M"
  shows "0 < (M + D - 1) div D"
  using assms by (simp add: div_greater_zero_iff)

lemma dayIndex_div:
  assumes "0 < D" "0 < M"
  shows "dayIndex i M D = Day (i div ((M + D - 1) div D))"
proof -
  let ?b = "(M + D - 1) div D"
  have b: "\<lceil>real M / real D\<rceil> = int ?b" using assms by (simp add: ceiling_div_nat)
  have "0 < ?b" using assms by (rule bucket_pos)
  have "\<lfloor>real i / real_of_int (int ?b)\<rfloor> = int (i div ?b)"
    by (simp add: floor_divide_of_nat_eq)
  then show ?thesis using assms b \<open>0 < ?b\<close> by (simp add: dayIndex_def Let_def)
qed

lemma bucket_covers:
  fixes D M :: nat
  assumes "0 < D"
  shows "M \<le> ((M + D - 1) div D) * D"
proof -
  have "M + D - 1 < D + D * ((M + D - 1) div D)"
    using assms by (rule dividend_less_times_div)
  then show ?thesis using assms by (simp add: mult.commute)
qed

lemma day_in_range:
  fixes D M i :: nat
  assumes "0 < D" "i < M"
  shows "i div ((M + D - 1) div D) < D"
proof -
  have "i < ((M + D - 1) div D) * D" using bucket_covers[OF assms(1), of M] assms(2) by simp
  then show ?thesis
    by (simp add: less_mult_imp_div_less mult.commute)
qed


subsection \<open>The builder's sort, selection and day lists\<close>

lemma length_insert_cmp: "length (insert_cmp cmp x ys) = Suc (length ys)"
  by (induction ys) auto

lemma length_Array_sort: "length (Array_sort cmp xs) = length xs"
  by (induction xs) (auto simp: Array_sort_def length_insert_cmp)

lemma mset_insert_cmp: "mset (insert_cmp cmp x ys) = add_mset x (mset ys)"
  by (induction ys) auto

lemma mset_Array_sort: "mset (Array_sort cmp xs) = mset xs"
  by (induction xs) (auto simp: Array_sort_def mset_insert_cmp)

lemma set_Array_sort: "set (Array_sort cmp xs) = set xs"
  using mset_Array_sort[of cmp xs] by (metis set_mset_mset)

text \<open>
  When every distance is a number the comparator is consistent, and the sort is the stable
  sort by the distance.
\<close>

lemma insert_by_distance:
  assumes "is_number (fst x)" "list_all (\<lambda>c. is_number (fst c)) ys"
  shows "insert_cmp by_distance x ys = insort_key (\<lambda>c. SortCompare (fst c)) x ys"
  using assms
proof (induction ys)
  case Nil
  then show ?case by simp
next
  case (Cons y ys)
  obtain a where a: "fst x = Num a" using Cons.prems(1) by (cases "fst x") auto
  obtain b where b: "fst y = Num b" using Cons.prems(2) by (cases "fst y") auto
  show ?case using Cons a b by (simp add: by_distance_def SortCompare_def)
qed

lemma list_all_sort_key: "list_all P (sort_key f xs) = list_all P xs"
  by (simp add: list_all_iff)

lemma Array_sort_by_distance:
  assumes "list_all (\<lambda>c. is_number (fst c)) xs"
  shows "Array_sort by_distance xs = sort_key (\<lambda>c. SortCompare (fst c)) xs"
  using assms
proof (induction xs)
  case Nil
  then show ?case by (simp add: Array_sort_def)
next
  case (Cons x xs)
  then have ih: "Array_sort by_distance xs = sort_key (\<lambda>c. SortCompare (fst c)) xs" by simp
  have "list_all (\<lambda>c. is_number (fst c)) (sort_key (\<lambda>c. SortCompare (fst c)) xs)"
    using Cons.prems by (simp add: list_all_sort_key)
  then have "insert_cmp by_distance x (sort_key (\<lambda>c. SortCompare (fst c)) xs) =
             insort_key (\<lambda>c. SortCompare (fst c)) x (sort_key (\<lambda>c. SortCompare (fst c)) xs)"
    using Cons.prems by (intro insert_by_distance) simp_all
  then show ?case using ih by (simp add: Array_sort_def sort_key_def)
qed

lemma js_le_numbers:
  assumes "is_number a" "is_number b"
  shows "js_le a b = (SortCompare a \<le> SortCompare b)"
  using assms by (cases a; cases b) (simp_all add: SortCompare_def)

lemma sorted_wrt_js_le:
  assumes "list_all is_number xs" "sorted (map SortCompare xs)"
  shows "sorted_wrt js_le xs"
  using assms by (induction xs) (auto simp: js_le_numbers list_all_iff)

lemma length_sorted_elements:
  "length (sorted_elements fp la lo els) = length (surviving els)"
  by (simp add: sorted_elements_def length_Array_sort with_distance_def)

lemma length_handlePlan_places:
  "length (handlePlan_places fp la lo D els) = min (length (surviving els)) (D * 5)"
  by (simp add: handlePlan_places_def Let_def length_sorted_elements)

lemma nth_handlePlan_places:
  assumes "i < length (handlePlan_places fp la lo D els)"
  shows "handlePlan_places fp la lo D els ! i =
         makePOI (length (handlePlan_places fp la lo D els)) D i
           (snd (sorted_elements fp la lo els ! i))"
  using assms
  by (simp add: handlePlan_places_def Let_def length_sorted_elements nth_enumerate_eq)

lemma filter_sorted_split:
  fixes f :: "'a \<Rightarrow> nat"
  assumes "sorted (map f xs)"
  shows "filter (\<lambda>x. f x < d) xs @ filter (\<lambda>x. f x = d) xs = filter (\<lambda>x. f x < Suc d) xs"
  using assms
proof (induction xs)
  case Nil
  then show ?case by simp
next
  case (Cons x xs)
  then have ge: "\<forall>y \<in> set xs. f x \<le> f y" and srt: "sorted (map f xs)" by auto
  show ?case
  proof (cases "f x < d")
    case True
    then show ?thesis using Cons.IH[OF srt] by simp
  next
    case False
    then have none: "filter (\<lambda>y. f y < d) xs = []" using ge by (auto simp: filter_empty_conv)
    show ?thesis
    proof (cases "f x = d")
      case True
      have "filter (\<lambda>y. f y = d) xs = filter (\<lambda>y. f y < Suc d) xs"
        using ge True by (intro filter_cong) auto
      then show ?thesis using True none by simp
    next
      case neq: False
      then have "filter (\<lambda>y. f y < Suc d) xs = []" "filter (\<lambda>y. f y = d) xs = []"
        using ge False by (auto simp: filter_empty_conv)
      then show ?thesis using False neq none by simp
    qed
  qed
qed

lemma concat_buckets_sorted:
  fixes f :: "'a \<Rightarrow> nat"
  assumes "sorted (map f xs)"
  shows "concat (map (\<lambda>d. filter (\<lambda>x. f x = d) xs) [0..<D]) = filter (\<lambda>x. f x < D) xs"
proof (induction D)
  case 0
  then show ?case by simp
next
  case (Suc D)
  then show ?case using filter_sorted_split[OF assms, of D] by simp
qed

lemma day_handlePlan_places:
  assumes "0 < D" "i < length (handlePlan_places fp la lo D els)"
  shows "day (handlePlan_places fp la lo D els ! i) =
         Day (i div ((length (handlePlan_places fp la lo D els) + D - 1) div D))"
proof -
  have "0 < length (handlePlan_places fp la lo D els)" using assms(2) by linarith
  then show ?thesis
    using assms by (simp add: nth_handlePlan_places makePOI_def dayIndex_div)
qed

lemma buckets_handlePlan_places:
  assumes "0 < D"
  shows "concat (createItineraryUI (Some D) (handlePlan_places fp la lo D els)) =
         handlePlan_places fp la lo D els"
proof -
  let ?ps = "handlePlan_places fp la lo D els"
  let ?b = "(length ?ps + D - 1) div D"
  let ?f = "\<lambda>p. case day p of Day n \<Rightarrow> n | _ \<Rightarrow> 0"
  have dayv: "?f (?ps ! i) = i div ?b" if "i < length ?ps" for i
    using day_handlePlan_places[OF assms that] by simp
  have inr: "day p = Day (?f p) \<and> ?f p < D" if "p \<in> set ?ps" for p
  proof -
    from that obtain i where i: "i < length ?ps" "p = ?ps ! i" by (auto simp: in_set_conv_nth)
    have "day p = Day (i div ?b)" using day_handlePlan_places[OF assms i(1)] i(2) by simp
    moreover have "i div ?b < D" using assms i(1) by (rule day_in_range)
    ultimately show ?thesis by simp
  qed
  have srt: "sorted (map ?f ?ps)"
    unfolding sorted_iff_nth_mono
  proof (intro allI impI)
    fix i j assume "i \<le> j" "j < length (map ?f ?ps)"
    then have "i < length ?ps" "j < length ?ps" by auto
    then show "map ?f ?ps ! i \<le> map ?f ?ps ! j"
      using \<open>i \<le> j\<close> by (simp add: dayv div_le_mono)
  qed
  have "filter (\<lambda>p. day p = Day d) ?ps = filter (\<lambda>p. ?f p = d) ?ps" for d
  proof (rule filter_cong[OF refl])
    fix p assume "p \<in> set ?ps"
    then have "day p = Day (?f p)" using inr by blast
    then show "(day p = Day d) = (?f p = d)" by (cases "day p") auto
  qed
  then have "concat (createItineraryUI (Some D) ?ps) =
             concat (map (\<lambda>d. filter (\<lambda>p. ?f p = d) ?ps) [0..<D])"
    by (simp add: createItineraryUI_def)
  also have "\<dots> = filter (\<lambda>p. ?f p < D) ?ps" using srt by (rule concat_buckets_sorted)
  also have "\<dots> = ?ps" using inr by (simp add: filter_id_conv)
  finally show ?thesis .
qed

subsection \<open>The distance in the two arithmetics\<close>

lemma haversine_exact:
  "haversine arith_exact lat1 lon1 lat2 lon2 =
     (let a = sin ((lat2 - lat1) * pi / 180 / 2) * sin ((lat2 - lat1) * pi / 180 / 2) +
              cos (lat1 * pi / 180) * cos (lat2 * pi / 180) *
              sin ((lon2 - lon1) * pi / 180 / 2) * sin ((lon2 - lon1) * pi / 180 / 2)
      in if a < 0 \<or> 1 - a < 0 then NaN
         else Num (6371 * (2 * atan2 (sqrt a) (sqrt (1 - a)))))"
  by (simp add: haversine_def toRad_def arith_exact_def Let_def)

lemma haversine_add_up:
  "haversine arith_add_up lat1 lon1 lat2 lon2 =
     (let a = (sin ((lat2 - lat1) * pi / 180 / 2) * sin ((lat2 - lat1) * pi / 180 / 2) +
               cos (lat1 * pi / 180) * cos (lat2 * pi / 180) *
               sin ((lon2 - lon1) * pi / 180 / 2) * sin ((lon2 - lon1) * pi / 180 / 2)) *
              (1 + 1 / 2 ^ 53)
      in if a < 0 \<or> 1 - a < 0 then NaN
         else Num (6371 * (2 * atan2 (sqrt a) (sqrt (1 - a)))))"
  by (simp add: haversine_def toRad_def arith_add_up_def arith_exact_def Let_def)

lemma haversine_same: "haversine arith_exact 0 0 0 0 = Num 0"
  by (simp add: haversine_exact atan2_def)

lemma haversine_quarter: "haversine arith_exact 0 0 0 90 = Num (6371 * pi / 2)"
proof -
  have s: "sin (pi / 4) * sin (pi / 4) = 1 / 2"
    by (simp add: sin_45 power_divide flip: power2_eq_square)
  have e: "(90 - 0) * pi / 180 / 2 = pi / 4" by simp
  have a: "sin ((0 - 0) * pi / 180 / 2) * sin ((0 - 0) * pi / 180 / 2) +
           cos (0 * pi / 180) * cos (0 * pi / 180) *
           sin ((90 - 0) * pi / 180 / 2) * sin ((90 - 0) * pi / 180 / 2) = 1 / 2"
    unfolding e using s by simp
  have t: "atan2 (sqrt (1 / 2)) (sqrt (1 - 1 / 2)) = pi / 4"
    by (simp add: atan2_def arctan_one)
  show ?thesis
    unfolding haversine_exact Let_def a t by simp
qed

lemma haversine_half: "haversine arith_exact 0 0 0 180 = Num (6371 * pi)"
proof -
  have e: "(180 - 0) * pi / 180 / 2 = pi / 2" by simp
  have a: "sin ((0 - 0) * pi / 180 / 2) * sin ((0 - 0) * pi / 180 / 2) +
           cos (0 * pi / 180) * cos (0 * pi / 180) *
           sin ((180 - 0) * pi / 180 / 2) * sin ((180 - 0) * pi / 180 / 2) = 1"
    unfolding e by simp
  have t: "atan2 (sqrt 1) (sqrt (1 - 1)) = pi / 2" by (simp add: atan2_def)
  show ?thesis
    unfolding haversine_exact Let_def a t by simp
qed

text \<open>From \<open>(8, 0)\<close> in the arithmetic that adds upwards.\<close>

lemma haversine_here: "haversine arith_add_up 8 0 8 0 = Num 0"
  by (simp add: haversine_add_up atan2_def)

lemma haversine_antipode: "haversine arith_add_up 8 0 (- 8) 180 = NaN"
proof -
  have e: "(- 8 - 8) * pi / 180 / 2 = - (2 * pi / 45)" "8 * pi / 180 = 2 * pi / 45"
    "- 8 * pi / 180 = - (2 * pi / 45)" "(180 - 0) * pi / 180 / 2 = pi / 2"
    by simp_all
  have a: "sin ((- 8 - 8) * pi / 180 / 2) * sin ((- 8 - 8) * pi / 180 / 2) +
           cos (8 * pi / 180) * cos (- 8 * pi / 180) *
           sin ((180 - 0) * pi / 180 / 2) * sin ((180 - 0) * pi / 180 / 2) = 1"
    unfolding e by (simp flip: power2_eq_square)
  show ?thesis
    unfolding haversine_add_up Let_def a by simp
qed

lemma haversine_south: "\<exists>r > 0. haversine arith_add_up 8 0 (- 8) 0 = Num r"
proof -
  let ?t = "2 * pi / 45"
  let ?a = "sin ?t * sin ?t * (1 + 1 / 2 ^ 53)"
  have e: "(- 8 - 8) * pi / 180 / 2 = - ?t" "(0 - 0) * pi / 180 / 2 = 0" by simp_all
  have a: "(sin ((- 8 - 8) * pi / 180 / 2) * sin ((- 8 - 8) * pi / 180 / 2) +
            cos (8 * pi / 180) * cos (- 8 * pi / 180) *
            sin ((0 - 0) * pi / 180 / 2) * sin ((0 - 0) * pi / 180 / 2)) * (1 + 1 / 2 ^ 53) = ?a"
    unfolding e by simp
  have tpos: "0 < ?t" by simp
  have tlt: "?t < 1 / 2" using pi_less_4 by simp
  have spos: "0 < sin ?t" using tpos by (intro sin_gt_zero) simp_all
  have sle: "sin ?t \<le> ?t" using tpos by (intro sin_x_le_x) simp
  then have "sin ?t < 1 / 2" using tlt by simp
  then have "sin ?t * sin ?t < 1 / 2 * (1 / 2)"
    using spos by (intro mult_strict_mono) simp_all
  then have ub: "?a < 1" by simp
  have apos: "0 < ?a" using spos by simp
  have "atan2 (sqrt ?a) (sqrt (1 - ?a)) = arctan (sqrt ?a / sqrt (1 - ?a))"
    using ub by (simp add: atan2_def)
  moreover have "0 < arctan (sqrt ?a / sqrt (1 - ?a))"
    using apos ub by simp
  ultimately have pos: "0 < 6371 * (2 * atan2 (sqrt ?a) (sqrt (1 - ?a)))" by simp
  have "haversine arith_add_up 8 0 (- 8) 0 = Num (6371 * (2 * atan2 (sqrt ?a) (sqrt (1 - ?a))))"
    unfolding haversine_add_up Let_def a using apos ub by simp
  then show ?thesis using pos by blast
qed

subsection \<open>The builder on the sample data\<close>

lemma surviving_sample:
  "surviving sample_elements =
     [\<lparr>c_id = 30, c_lat = 0, c_lon = 180,
       c_tags = [(''tourism'', ''museum''), (''name'', ''Far'')], c_name = ''Far''\<rparr>,
      \<lparr>c_id = 10, c_lat = 0, c_lon = 0,
       c_tags = [(''name'', ''Near''), (''tourism'', ''zoo'')], c_name = ''Near''\<rparr>,
      \<lparr>c_id = 25, c_lat = 0, c_lon = 90, c_tags = [(''name'', ''First'')], c_name = ''First''\<rparr>,
      \<lparr>c_id = 20, c_lat = 0, c_lon = 90, c_tags = [(''name'', ''Second'')],
       c_name = ''Second''\<rparr>]"
  by (simp add: surviving_def sample_elements_def List.map_filter_simps named_def)

lemma toString_sample:
  "toString 10 = ''10''" "toString 20 = ''20''" "toString 25 = ''25''" "toString 30 = ''30''"
  "toString 1 = ''1''" "toString 2 = ''2''" "toString 3 = ''3''"
  by code_simp+

lemma distances_sample:
  "with_distance arith_exact 0 0 (surviving sample_elements) =
     [(Num (6371 * pi), \<lparr>c_id = 30, c_lat = 0, c_lon = 180,
       c_tags = [(''tourism'', ''museum''), (''name'', ''Far'')], c_name = ''Far''\<rparr>),
      (Num 0, \<lparr>c_id = 10, c_lat = 0, c_lon = 0,
       c_tags = [(''name'', ''Near''), (''tourism'', ''zoo'')], c_name = ''Near''\<rparr>),
      (Num (6371 * pi / 2), \<lparr>c_id = 25, c_lat = 0, c_lon = 90, c_tags = [(''name'', ''First'')],
       c_name = ''First''\<rparr>),
      (Num (6371 * pi / 2), \<lparr>c_id = 20, c_lat = 0, c_lon = 90, c_tags = [(''name'', ''Second'')],
       c_name = ''Second''\<rparr>)]"
  by (simp add: surviving_sample with_distance_def haversine_same haversine_quarter
      haversine_half)

lemma sorted_sample:
  "sorted_elements arith_exact 0 0 sample_elements =
     [(Num 0, \<lparr>c_id = 10, c_lat = 0, c_lon = 0,
       c_tags = [(''name'', ''Near''), (''tourism'', ''zoo'')], c_name = ''Near''\<rparr>),
      (Num (6371 * pi / 2), \<lparr>c_id = 25, c_lat = 0, c_lon = 90, c_tags = [(''name'', ''First'')],
       c_name = ''First''\<rparr>),
      (Num (6371 * pi / 2), \<lparr>c_id = 20, c_lat = 0, c_lon = 90, c_tags = [(''name'', ''Second'')],
       c_name = ''Second''\<rparr>),
      (Num (6371 * pi), \<lparr>c_id = 30, c_lat = 0, c_lon = 180,
       c_tags = [(''tourism'', ''museum''), (''name'', ''Far'')], c_name = ''Far''\<rparr>)]"
  by (simp add: sorted_elements_def distances_sample Array_sort_def by_distance_def
      SortCompare_def not_le pi_gt_zero)

lemma handlePlan_places_sample:
  "handlePlan_places arith_exact 0 0 3 sample_elements = sample_places"
  by (simp add: handlePlan_places_def sorted_sample Let_def enumerate_eq_zip upt_rec
      makePOI_def dayIndex_def toString_sample sample_places_def)

text \<open>
  The answer with the antipode, in the arithmetic that adds upwards: the sort leaves the
  place in the south, at a positive distance, before the place on the spot.
\<close>

lemma sorted_antipode:
  "\<exists>r > 0. sorted_elements arith_add_up 8 0 antipode_elements =
     [(Num r, \<lparr>c_id = 2, c_lat = - 8, c_lon = 0, c_tags = [(''name'', ''South'')],
        c_name = ''South''\<rparr>),
      (NaN, \<lparr>c_id = 1, c_lat = - 8, c_lon = 180, c_tags = [(''name'', ''Antipode'')],
        c_name = ''Antipode''\<rparr>),
      (Num 0, \<lparr>c_id = 3, c_lat = 8, c_lon = 0, c_tags = [(''name'', ''Here'')],
        c_name = ''Here''\<rparr>)]"
proof -
  from haversine_south obtain r where r: "0 < r" "haversine arith_add_up 8 0 (- 8) 0 = Num r"
    by blast
  have "sorted_elements arith_add_up 8 0 antipode_elements =
     [(Num r, \<lparr>c_id = 2, c_lat = - 8, c_lon = 0, c_tags = [(''name'', ''South'')],
        c_name = ''South''\<rparr>),
      (NaN, \<lparr>c_id = 1, c_lat = - 8, c_lon = 180, c_tags = [(''name'', ''Antipode'')],
        c_name = ''Antipode''\<rparr>),
      (Num 0, \<lparr>c_id = 3, c_lat = 8, c_lon = 0, c_tags = [(''name'', ''Here'')],
        c_name = ''Here''\<rparr>)]"
    using r
    by (simp add: sorted_elements_def surviving_def antipode_elements_def
        List.map_filter_simps named_def with_distance_def haversine_here haversine_antipode
        Array_sort_def by_distance_def SortCompare_def)
  then show ?thesis using r(1) by blast
qed

lemma sorted_antipode_first:
  "\<exists>r > 0. sorted_elements arith_add_up 8 0 antipode_first_elements =
     [(NaN, \<lparr>c_id = 1, c_lat = - 8, c_lon = 180, c_tags = [(''name'', ''Antipode'')],
        c_name = ''Antipode''\<rparr>),
      (Num 0, \<lparr>c_id = 3, c_lat = 8, c_lon = 0, c_tags = [(''name'', ''Here'')],
        c_name = ''Here''\<rparr>),
      (Num r, \<lparr>c_id = 2, c_lat = - 8, c_lon = 0, c_tags = [(''name'', ''South'')],
        c_name = ''South''\<rparr>)]"
proof -
  from haversine_south obtain r where r: "0 < r" "haversine arith_add_up 8 0 (- 8) 0 = Num r"
    by blast
  have "sorted_elements arith_add_up 8 0 antipode_first_elements =
     [(NaN, \<lparr>c_id = 1, c_lat = - 8, c_lon = 180, c_tags = [(''name'', ''Antipode'')],
        c_name = ''Antipode''\<rparr>),
      (Num 0, \<lparr>c_id = 3, c_lat = 8, c_lon = 0, c_tags = [(''name'', ''Here'')],
        c_name = ''Here''\<rparr>),
      (Num r, \<lparr>c_id = 2, c_lat = - 8, c_lon = 0, c_tags = [(''name'', ''South'')],
        c_name = ''South''\<rparr>)]"
    using r
    by (simp add: sorted_elements_def surviving_def antipode_first_elements_def
        List.map_filter_simps named_def with_distance_def haversine_here haversine_antipode
        Array_sort_def by_distance_def SortCompare_def)
  then show ?thesis using r(1) by blast
qed

subsection \<open>Distances of the places\<close>

lemma mset_sorted_elements:
  "mset (sorted_elements fp la lo els) = mset (with_distance fp la lo (surviving els))"
  by (simp add: sorted_elements_def mset_Array_sort)

lemma fst_sorted_elements:
  assumes "c \<in> set (sorted_elements fp la lo els)"
  shows "fst c = haversine fp la lo (c_lat (snd c)) (c_lon (snd c))"
proof -
  have "c \<in> set (with_distance fp la lo (surviving els))"
    using assms by (simp add: sorted_elements_def set_Array_sort)
  then show ?thesis by (auto simp: with_distance_def)
qed

lemma distance_handlePlan_places:
  assumes "i < length (handlePlan_places fp la lo D els)"
  shows "haversine fp la lo (lat (handlePlan_places fp la lo D els ! i))
           (lon (handlePlan_places fp la lo D els ! i)) = fst (sorted_elements fp la lo els ! i)"
proof -
  have i: "i < length (sorted_elements fp la lo els)"
    using assms by (simp add: length_handlePlan_places length_sorted_elements)
  then have "sorted_elements fp la lo els ! i \<in> set (sorted_elements fp la lo els)" by simp
  then show ?thesis
    using assms by (simp add: nth_handlePlan_places makePOI_def fst_sorted_elements)
qed

lemma sorted_elements_numbers:
  assumes "list_all (\<lambda>c. is_number (fst c)) (with_distance fp la lo (surviving els))"
  shows "sorted_elements fp la lo els =
           sort_key (\<lambda>c. SortCompare (fst c)) (with_distance fp la lo (surviving els))"
    and "list_all (\<lambda>c. is_number (fst c)) (sorted_elements fp la lo els)"
proof -
  show eq: "sorted_elements fp la lo els =
           sort_key (\<lambda>c. SortCompare (fst c)) (with_distance fp la lo (surviving els))"
    using assms by (simp add: sorted_elements_def Array_sort_by_distance)
  show "list_all (\<lambda>c. is_number (fst c)) (sorted_elements fp la lo els)"
    using assms by (simp add: eq list_all_sort_key)
qed

lemma sorted_sorted_elements:
  assumes "list_all (\<lambda>c. is_number (fst c)) (with_distance fp la lo (surviving els))"
  shows "sorted_wrt js_le (map fst (sorted_elements fp la lo els))"
proof (rule sorted_wrt_js_le)
  show "list_all is_number (map fst (sorted_elements fp la lo els))"
    using sorted_elements_numbers(2)[OF assms] by (simp add: list_all_iff)
  have "sorted (map (\<lambda>c. SortCompare (fst c)) (sorted_elements fp la lo els))"
    by (simp add: sorted_elements_numbers(1)[OF assms])
  then show "sorted (map SortCompare (map fst (sorted_elements fp la lo els)))"
    by (simp add: comp_def)
qed

lemma stable_sorted_elements:
  assumes "list_all (\<lambda>c. is_number (fst c)) (with_distance fp la lo (surviving els))"
  shows "filter (\<lambda>c. fst c = k) (sorted_elements fp la lo els) =
         filter (\<lambda>c. fst c = k) (with_distance fp la lo (surviving els))"
proof (cases k)
  case (Num r)
  let ?cs = "with_distance fp la lo (surviving els)"
  let ?f = "\<lambda>c. SortCompare (fst c)"
  have same: "(fst c = k) = (?f c = r)" if "is_number (fst c)" for c :: "jsnum \<times> candidate"
    using that Num by (cases "fst c") (simp_all add: SortCompare_def)
  have "filter (\<lambda>c. fst c = k) (sort_key ?f ?cs) = filter (\<lambda>c. ?f c = r) (sort_key ?f ?cs)"
    using assms by (intro filter_cong[OF refl] same) (simp add: list_all_iff)
  also have "\<dots> = filter (\<lambda>c. ?f c = r) ?cs" by (rule sort_key_stable)
  also have "\<dots> = filter (\<lambda>c. fst c = k) ?cs"
    using assms by (intro filter_cong[OF refl] same[symmetric]) (simp add: list_all_iff)
  finally show ?thesis by (simp add: sorted_elements_numbers(1)[OF assms])
next
  case NaN
  have "filter (\<lambda>c. fst c = k) (sorted_elements fp la lo els) = []"
    using sorted_elements_numbers(2)[OF assms] NaN
    by (auto simp: filter_empty_conv list_all_iff)
  moreover have "filter (\<lambda>c. fst c = k) (with_distance fp la lo (surviving els)) = []"
    using assms NaN by (auto simp: filter_empty_conv list_all_iff)
  ultimately show ?thesis by simp
qed

subsection \<open>Markers and the update of a found place\<close>

lemma places_saveTrip: "places (saveTrip st) = places st"
  by (simp add: saveTrip_def split: option.splits)

lemma markers_saveTrip: "markers (saveTrip st) = markers st"
  by (simp add: saveTrip_def split: option.splits)

lemma places_updateMarkerColors: "places (updateMarkerColors st) = places st"
  by (simp add: updateMarkerColors_def)

lemma dom_update_fold:
  "dom (fold (\<lambda>p m. case m (poi_id p) of
                        None \<Rightarrow> m
                      | Some mk \<Rightarrow>
                          if visited p then m(poi_id p := None)
                          else m(poi_id p \<mapsto> mk\<lparr>mk_color := dayColor (day p)\<rparr>))
             ps m0) =
   dom m0 - poi_id ` {p \<in> set ps. visited p}"
proof (induction ps arbitrary: m0)
  case Nil
  then show ?case by simp
next
  case (Cons p ps)
  show ?case
    by (cases "m0 (poi_id p)") (auto simp: Cons.IH split: if_splits)
qed

lemma dom_updateMarkerColors:
  "dom (markers (updateMarkerColors st)) =
   dom (markers st) - poi_id ` {p \<in> set (places st). visited p}"
  by (simp add: updateMarkerColors_def dom_update_fold)

lemma dom_create_fold:
  "dom (fold (\<lambda>p m. if visited p then m else m(poi_id p \<mapsto> newMarker p)) ps m0) =
   dom m0 \<union> poi_id ` {p \<in> set ps. \<not> visited p}"
  by (induction ps arbitrary: m0) auto

lemma dom_createMarkers:
  "dom (markers (createMarkers st)) = poi_id ` {p \<in> set (places st). \<not> visited p}"
  by (simp add: createMarkers_def dom_create_fold)

lemma find_update_first:
  assumes "find P xs = Some p"
  shows "\<exists>i < length xs. xs ! i = p \<and> P p \<and> (\<forall>j < i. \<not> P (xs ! j)) \<and>
                         update_first P f xs = xs[i := f p]"
  using assms
proof (induction xs)
  case Nil
  then show ?case by simp
next
  case (Cons x xs)
  show ?case
  proof (cases "P x")
    case True
    then have "x = p" using Cons.prems by simp
    then show ?thesis using True by (intro exI[of _ 0]) simp
  next
    case False
    then have "find P xs = Some p" using Cons.prems by simp
    then obtain i where i: "i < length xs" "xs ! i = p" "P p" "\<forall>j < i. \<not> P (xs ! j)"
      "update_first P f xs = xs[i := f p]" using Cons.IH by blast
    have "\<forall>j < Suc i. \<not> P ((x # xs) ! j)"
      using False i(4) by (auto simp: nth_Cons split: nat.splits)
    then show ?thesis using False i by (intro exI[of _ "Suc i"]) simp
  qed
qed

lemma update_first_none: "find P xs = None \<Longrightarrow> update_first P f xs = xs"
  by (induction xs) (auto split: if_splits)

lemma update_first_twice:
  assumes "\<And>x. P (f x) = P x" "\<And>x. f (f x) = x"
  shows "update_first P f (update_first P f xs) = xs"
  by (induction xs) (auto simp: assms)

lemma find_None_ids: "find (\<lambda>pl. poi_id pl = i) ps = None \<longleftrightarrow> i \<notin> poi_id ` set ps"
  by (auto simp: find_None_iff)

lemma find_after_update_first:
  assumes "find P xs = Some p" "P (f p)"
  shows "find P (update_first P f xs) = Some (f p)"
  using assms by (induction xs) (auto split: if_splits)

lemma toggleVisited_twice:
  assumes f: "find (\<lambda>pl. poi_id pl = i) (places st) = Some p" and nv: "\<not> visited p"
  shows "markers (toggleVisited i (toggleVisited i st)) i = None \<and>
         places (toggleVisited i (toggleVisited i st)) = places st \<and>
         markers (createMarkers (toggleVisited i (toggleVisited i st))) i \<noteq> None"
proof -
  let ?P = "\<lambda>pl. poi_id pl = i"
  let ?f = "\<lambda>p. p\<lparr>visited := \<not> visited p\<rparr>"
  let ?ps1 = "update_first ?P ?f (places st)"
  let ?st1 = "toggleVisited i st"
  from find_update_first[OF f, of ?f] obtain k where
    k: "k < length (places st)" "places st ! k = p" "poi_id p = i" "?ps1 = (places st)[k := ?f p]"
    by blast
  have p1: "places ?st1 = ?ps1"
    using f by (simp add: toggleVisited_def places_saveTrip places_updateMarkerColors)
  have "?f p \<in> set ?ps1" using k by (simp add: set_update_memI)
  moreover have "visited (?f p)" "poi_id (?f p) = i" using nv k(3) by simp_all
  ultimately have "?f p \<in> {q \<in> set ?ps1. visited q}" by simp
  then have vis: "i \<in> poi_id ` {q \<in> set ?ps1. visited q}"
    using \<open>poi_id (?f p) = i\<close> by (metis (no_types, lifting) image_eqI)
  have m1: "dom (markers ?st1) = dom (markers st) - poi_id ` {q \<in> set ?ps1. visited q}"
    using f by (simp add: toggleVisited_def markers_saveTrip dom_updateMarkerColors)
  then have no1: "i \<notin> dom (markers ?st1)" using vis by blast
  have f1: "find ?P ?ps1 = Some (?f p)"
    using f k(3) by (intro find_after_update_first) simp_all
  have p2: "places (toggleVisited i ?st1) = update_first ?P ?f ?ps1"
    using f1 p1 by (simp add: toggleVisited_def places_saveTrip places_updateMarkerColors)
  then have p2': "places (toggleVisited i ?st1) = places st"
    by (simp add: update_first_twice)
  have "dom (markers (toggleVisited i ?st1)) \<subseteq> dom (markers ?st1)"
    using f1 p1 by (auto simp: toggleVisited_def markers_saveTrip dom_updateMarkerColors)
  then have no2: "markers (toggleVisited i ?st1) i = None" using no1 by blast
  have "p \<in> set (places st)" using k by auto
  then have "p \<in> {q \<in> set (places st). \<not> visited q}" using nv by simp
  then have "i \<in> poi_id ` {q \<in> set (places st). \<not> visited q}"
    using k(3) by (metis (no_types, lifting) image_eqI)
  then have "i \<in> dom (markers (createMarkers (toggleVisited i ?st1)))"
    by (simp add: dom_createMarkers p2')
  then show ?thesis using no2 p2' by blast
qed

lemma markers_sample:
  "markers (createMarkers sample_state) =
     [''10'' \<mapsto> \<lparr>mk_lat = 0, mk_lon = 0, mk_color = ''#e74c3c''\<rparr>,
      ''25'' \<mapsto> \<lparr>mk_lat = 0, mk_lon = 90, mk_color = ''#e74c3c''\<rparr>,
      ''20'' \<mapsto> \<lparr>mk_lat = 0, mk_lon = 90, mk_color = ''#3498db''\<rparr>,
      ''30'' \<mapsto> \<lparr>mk_lat = 0, mk_lon = 180, mk_color = ''#3498db''\<rparr>]"
  by (simp add: createMarkers_def sample_state_def sample_places_def newMarker_def
      dayColor_def dayColors_def)

lemma places_createMarkers: "places (createMarkers st) = places st"
  by (simp add: createMarkers_def)

lemma find_sample:
  "find (\<lambda>pl. poi_id pl = ''25'') (places (createMarkers sample_state)) = Some (sample_places ! 1)"
  by (simp add: places_createMarkers sample_state_def sample_places_def)

lemma places_toggleVisited:
  "places (toggleVisited i st) =
     (case find (\<lambda>pl. poi_id pl = i) (places st) of
        None \<Rightarrow> places st
      | Some p \<Rightarrow> update_first (\<lambda>pl. poi_id pl = i) (\<lambda>p. p\<lparr>visited := \<not> visited p\<rparr>) (places st))"
  by (simp add: toggleVisited_def places_saveTrip places_updateMarkerColors split: option.splits)

lemma markers_toggleVisited:
  "markers (toggleVisited i st) =
     (case find (\<lambda>pl. poi_id pl = i) (places st) of
        None \<Rightarrow> markers st
      | Some p \<Rightarrow>
          markers (updateMarkerColors
            (st\<lparr>places := update_first (\<lambda>pl. poi_id pl = i)
                              (\<lambda>p. p\<lparr>visited := \<not> visited p\<rparr>) (places st)\<rparr>)))"
  by (simp add: toggleVisited_def markers_saveTrip split: option.splits)

lemma places_toggleVisited_found:
  assumes "find (\<lambda>pl. poi_id pl = i) (places st) = Some p"
  shows "places (toggleVisited i st) =
         update_first (\<lambda>pl. poi_id pl = i) (\<lambda>p. p\<lparr>visited := \<not> visited p\<rparr>) (places st)"
  using assms by (simp add: places_toggleVisited)

lemma dom_markers_toggleVisited: "dom (markers (toggleVisited i st)) \<subseteq> dom (markers st)"
  by (auto simp: markers_toggleVisited dom_updateMarkerColors split: option.splits)

subsection \<open>The handlers and what they store\<close>

lemma find_Some_ids:
  assumes "i \<in> poi_id ` set ps"
  shows "\<exists>p. find (\<lambda>pl. poi_id pl = i) ps = Some p"
  using assms by (cases "find (\<lambda>pl. poi_id pl = i) ps") (auto simp: find_None_ids)

lemma places_poiList_onEnd:
  "places (poiList_onEnd x d st) =
     (case find (\<lambda>pl. poi_id pl = x) (places st) of
        None \<Rightarrow> places st
      | Some p \<Rightarrow> update_first (\<lambda>pl. poi_id pl = x) (\<lambda>p. p\<lparr>day := Day d\<rparr>) (places st))"
  by (simp add: poiList_onEnd_def places_saveTrip places_updateMarkerColors split: option.splits)

lemma trip_fields_saveTrip:
  "currentTripKey (saveTrip st) = currentTripKey st" "currentDest (saveTrip st) = currentDest st"
  "currentDays (saveTrip st) = currentDays st" "currentMode (saveTrip st) = currentMode st"
  by (simp_all add: saveTrip_def split: option.splits)

lemma trip_fields_updateMarkerColors:
  "currentTripKey (updateMarkerColors st) = currentTripKey st"
  "currentDest (updateMarkerColors st) = currentDest st"
  "currentDays (updateMarkerColors st) = currentDays st"
  "currentMode (updateMarkerColors st) = currentMode st"
  "localStorage (updateMarkerColors st) = localStorage st"
  by (simp_all add: updateMarkerColors_def)

lemma trip_json_saveTrip: "trip_json (saveTrip st) = trip_json st"
  by (simp add: trip_json_def places_saveTrip trip_fields_saveTrip)

lemma stored_saveTrip:
  assumes "currentTripKey st = Some k" "k \<noteq> []"
  shows "localStorage (saveTrip st) k = Some (JSON_stringify (trip_json (saveTrip st)))"
  using assms by (simp add: trip_json_saveTrip) (simp add: saveTrip_def)

lemma places_sample_state: "places (createMarkers sample_state) = sample_places"
  by (simp add: places_createMarkers sample_state_def)

lemma ids_sample: "poi_id ` set sample_places = {''10'', ''25'', ''20'', ''30''}"
  by (simp add: sample_places_def)

subsection \<open>The table of a day reorder\<close>

lemma fold_mapping_other:
  assumes "k \<notin> set xs"
  shows "fold (\<lambda>(newIndex, oldIndex) mapping. mapping(oldIndex \<mapsto> newIndex))
              (enumerate n xs) m k = m k"
  using assms by (induction xs arbitrary: n m) auto

lemma fold_mapping_nth:
  assumes "distinct xs" "i < length xs"
  shows "fold (\<lambda>(newIndex, oldIndex) mapping. mapping(oldIndex \<mapsto> newIndex))
              (enumerate n xs) m (xs ! i) = Some (n + i)"
  using assms
proof (induction xs arbitrary: n m i)
  case Nil
  then show ?case by simp
next
  case (Cons x xs)
  show ?case
  proof (cases i)
    case 0
    have "x \<notin> set xs" using Cons.prems by simp
    then show ?thesis
      using 0 by (simp add: fold_mapping_other del: fun_upd_apply) simp
  next
    case (Suc j)
    then show ?thesis
      using Cons.prems Cons.IH[of j "Suc n"] by (simp del: fun_upd_apply)
  qed
qed

lemma day_mapping_nth:
  assumes "distinct order" "i < length order"
  shows "day_mapping order (order ! i) = Some i"
  using fold_mapping_nth[OF assms, of 0] by (simp add: day_mapping_def)

lemma day_mapping_other: "d \<notin> set order \<Longrightarrow> day_mapping order d = None"
  by (simp add: day_mapping_def fold_mapping_other)

lemma position_in:
  assumes "d \<in> set xs"
  shows "position d xs < length xs \<and> xs ! position d xs = d"
  using assms by (induction xs) auto

lemma position_nth:
  assumes "distinct xs" "i < length xs"
  shows "position (xs ! i) xs = i"
  using assms
proof (induction xs arbitrary: i)
  case Nil
  then show ?case by simp
next
  case (Cons x xs)
  then show ?case by (cases i) auto
qed

lemma day_mapping_position:
  assumes "distinct order" "d \<in> set order"
  shows "day_mapping order d = Some (position d order)"
proof -
  from position_in[OF assms(2)] have "position d order < length order"
    "order ! position d order = d" by simp_all
  then show ?thesis using day_mapping_nth[OF assms(1), of "position d order"] by simp
qed

lemma length_permutation:
  assumes "distinct order" "set order = {0..<D}"
  shows "length order = D"
  using assms by (metis card_atLeastLessThan diff_zero distinct_card)

lemma inverse_order_permutation:
  assumes "distinct order" "set order = {0..<D}"
  shows "distinct (inverse_order order) \<and> set (inverse_order order) = {0..<D}"
proof -
  have len: "length order = D" using assms by (rule length_permutation)
  have inj: "inj_on (\<lambda>j. position j order) {0..<D}"
  proof (rule inj_onI)
    fix a b assume a: "a \<in> {0..<D}" and b: "b \<in> {0..<D}"
      and eq: "position a order = position b order"
    have "a \<in> set order" "b \<in> set order" using a b assms(2) by simp_all
    then have "order ! position a order = a" "order ! position b order = b"
      by (simp_all add: position_in)
    then show "a = b" using eq by metis
  qed
  have d: "distinct (inverse_order order)"
    using inj len by (simp add: inverse_order_def distinct_map)
  have "(\<lambda>j. position j order) ` {0..<D} \<subseteq> {0..<D}"
  proof
    fix i assume "i \<in> (\<lambda>j. position j order) ` {0..<D}"
    then obtain j where j: "j \<in> set order" "i = position j order"
      using assms(2) by auto
    then have "i < length order" by (simp add: position_in)
    then show "i \<in> {0..<D}" using len by simp
  qed
  moreover have "card ((\<lambda>j. position j order) ` {0..<D}) = card {0..<D}"
    using inj by (rule card_image)
  ultimately have "(\<lambda>j. position j order) ` {0..<D} = {0..<D}"
    by (simp add: card_subset_eq)
  then have "set (inverse_order order) = {0..<D}"
    using len by (simp add: inverse_order_def)
  then show ?thesis using d by simp
qed

lemma day_mapping_inverse_order:
  assumes "distinct order" "set order = {0..<D}" "d < D"
  shows "day_mapping (inverse_order order) (position d order) = Some d"
proof -
  have len: "length order = D" using assms(1,2) by (rule length_permutation)
  have di: "distinct (inverse_order order)"
    using inverse_order_permutation[OF assms(1,2)] by simp
  have "d < length (inverse_order order)" using assms(3) len by (simp add: inverse_order_def)
  moreover have "inverse_order order ! d = position d order"
    using assms(3) len by (simp add: inverse_order_def)
  ultimately show ?thesis using day_mapping_nth[OF di, of d] by simp
qed

lemma places_dayContainers_onEnd:
  "places (dayContainers_onEnd newOrder st) =
     map (\<lambda>p. p\<lparr>day := remap_day (day_mapping newOrder) (day p)\<rparr>) (places st)"
  by (simp add: dayContainers_onEnd_def places_saveTrip places_updateMarkerColors)

lemma remap_there_and_back:
  assumes "distinct order" "set order = {0..<D}" "d < D"
  shows "remap_day (day_mapping order) (Day d) = Day (position d order) \<and>
         position d order < D \<and> order ! position d order = d \<and>
         remap_day (day_mapping (inverse_order order)) (Day (position d order)) = Day d"
proof -
  have din: "d \<in> set order" using assms(2,3) by simp
  have len: "length order = D" using assms(1,2) by (rule length_permutation)
  have "day_mapping order d = Some (position d order)"
    using assms(1) din by (rule day_mapping_position)
  moreover have "day_mapping (inverse_order order) (position d order) = Some d"
    using assms by (rule day_mapping_inverse_order)
  ultimately show ?thesis
    using position_in[OF din] len by (simp add: remap_day_def)
qed

subsection \<open>What saveTrip writes and loadTrip reads\<close>

lemma day_json_inj: "day_json a = day_json b \<Longrightarrow> a = b"
  by (cases a; cases b) (simp_all add: day_json_def)

lemma tags_json_inj:
  "map (\<lambda>(k, v). (k, JStr v)) a = map (\<lambda>(k, v). (k, JStr v)) b \<Longrightarrow> a = b"
proof (induction a arbitrary: b)
  case Nil
  then show ?case by simp
next
  case (Cons x xs)
  then obtain y ys where b: "b = y # ys" by (cases b) auto
  then show ?case using Cons by (cases x; cases y) auto
qed

lemma poi_json_inj:
  assumes "poi_json p = poi_json q"
  shows "p = q"
proof -
  have d: "day_json (day p) = day_json (day q)"
    using assms by (simp add: poi_json_def)
  then have "day p = day q" by (rule day_json_inj)
  moreover have "tags p = tags q"
    using assms d by (simp add: poi_json_def tags_json_inj)
  ultimately show ?thesis
    using assms d by (cases p; cases q) (simp add: poi_json_def)
qed

lemma map_poi_json_inj: "map poi_json ps = map poi_json qs \<Longrightarrow> ps = qs"
proof (induction ps arbitrary: qs)
  case Nil
  then show ?case by simp
next
  case (Cons p ps)
  then obtain q qs' where "qs = q # qs'" by (cases qs) auto
  then show ?case using Cons by (auto dest: poi_json_inj)
qed

lemma vars_of_inj:
  assumes "vars_of a = vars_of b"
  shows "places a = places b \<and> currentDest a = currentDest b \<and>
         currentDays a = currentDays b \<and> currentMode a = currentMode b"
proof -
  have "map poi_json (places a) = map poi_json (places b)"
    "dest_json (currentDest a) = dest_json (currentDest b)"
    "days_json (currentDays a) = days_json (currentDays b)"
    "currentMode a = currentMode b"
    using assms by (simp_all add: vars_of_def)
  then show ?thesis
    by (auto dest: map_poi_json_inj simp: dest_json_def days_json_def split: option.splits)
qed

lemma loadTrip_try_saved:
  assumes "currentMode st \<noteq> []"
  shows "loadTrip_try (JSON_stringify (trip_json st)) = Inr (vars_of st)"
  using assms
  by (simp add: loadTrip_try_def JSON_stringify_def JSON_parse_def trip_json_def get_prop_def
      js_or_def truthy_def vars_of_def)

lemma valid_sample_state: "valid_trip sample_state"
  by (simp add: valid_trip_def on_day_below_def sample_state_def sample_places_def)

text \<open>
  Why a valid trip needs a travel mode: an empty mode is falsy, so after saving it the load
  puts \<^verbatim>\<open>driving\<close> in its place.
\<close>

lemma load_empty_mode_defaults:
  "v_mode (loadTrip (Some k) [k \<mapsto> JSON_stringify (trip_json (st\<lparr>currentMode := []\<rparr>))] v) =
     (if k = [] then v_mode v else Some (JStr ''driving''))"
  by (simp add: loadTrip_def loadTrip_try_def JSON_stringify_def JSON_parse_def trip_json_def
      get_prop_def js_or_def truthy_def)

section \<open>The claims\<close>

subsection \<open>C1: count, day indices and day lists of the builder\<close>

text \<open>
  Claim C1. For every day count \<open>D \<ge> 1\<close>, every Overpass answer and every arithmetic, with \<open>N\<close> the number of
  elements that survive the name filter and \<open>M = min N (5 * D)\<close>, the builder returns exactly
  \<open>M\<close> places; the \<open>i\<close>-th place is made from the \<open>i\<close>-th candidate in distance order and
  its day is \<open>i div \<lceil>M / D\<rceil>\<close>, a day below \<open>D\<close>; and the day lists that
  \<^verbatim>\<open>createItineraryUI\<close> draws, one after the other, are the list of places again, so every
  place is in exactly one day list.
\<close>

theorem builder_count_days_partition:
  assumes "1 \<le> D"
  shows "(let ps = handlePlan_places fp la lo D els;
              M = min (length (surviving els)) (D * 5);
              bucket = (M + D - 1) div D
          in length ps = M \<and> int bucket = \<lceil>real M / real D\<rceil> \<and>
             (\<forall>i < M.
                ps ! i = makePOI M D i (snd (sorted_elements fp la lo els ! i)) \<and>
                day (ps ! i) = Day (i div bucket) \<and>
                int (i div bucket) = \<lfloor>real i / real bucket\<rfloor> \<and> i div bucket < D) \<and>
             concat (createItineraryUI (Some D) ps) = ps \<and>
             mset (concat (createItineraryUI (Some D) ps)) = mset ps)"
proof -
  have D: "0 < D" using assms by simp
  let ?ps = "handlePlan_places fp la lo D els"
  let ?M = "min (length (surviving els)) (D * 5)"
  have len: "length ?ps = ?M" by (rule length_handlePlan_places)
  have nth: "?ps ! i = makePOI ?M D i (snd (sorted_elements fp la lo els ! i))" if "i < ?M" for i
    using nth_handlePlan_places[of i fp la lo D els] that len by simp
  have dy: "day (?ps ! i) = Day (i div ((?M + D - 1) div D))" if "i < ?M" for i
    using day_handlePlan_places[OF D, of i fp la lo els] that len by simp
  have rg: "i div ((?M + D - 1) div D) < D" if "i < ?M" for i
    using D that by (rule day_in_range)
  have cc: "concat (createItineraryUI (Some D) ?ps) = ?ps"
    using D by (rule buckets_handlePlan_places)
  have bk: "int ((?M + D - 1) div D) = \<lceil>real ?M / real D\<rceil>"
    using D by (simp add: ceiling_div_nat)
  have fl: "int (i div ((?M + D - 1) div D)) = \<lfloor>real i / real ((?M + D - 1) div D)\<rfloor>" for i
    by (simp add: floor_divide_of_nat_eq)
  show ?thesis
    unfolding Let_def using len nth dy rg cc bk fl by simp
qed
text \<open>
  The sample answer with three days: four places, two on day 0, two on day 1, and the last
  day list is empty.
\<close>

theorem builder_count_days_partition_witness:
  "(1::nat) \<le> 3 \<and>
   handlePlan_places arith_exact 0 0 3 sample_elements = sample_places \<and>
   length (handlePlan_places arith_exact 0 0 3 sample_elements) = min 4 (3 * 5) \<and>
   day (handlePlan_places arith_exact 0 0 3 sample_elements ! 0) = Day 0 \<and>
   day (handlePlan_places arith_exact 0 0 3 sample_elements ! 1) = Day 0 \<and>
   day (handlePlan_places arith_exact 0 0 3 sample_elements ! 2) = Day 1 \<and>
   day (handlePlan_places arith_exact 0 0 3 sample_elements ! 3) = Day 1 \<and>
   concat (createItineraryUI (Some 3) (handlePlan_places arith_exact 0 0 3 sample_elements)) =
     handlePlan_places arith_exact 0 0 3 sample_elements"
proof -
  have h: "(1::nat) \<le> 3" by simp
  have n: "length (surviving sample_elements) = 4" by (simp add: surviving_sample)
  have ar: "min (4::nat) (3 * 5) = 4" "((4::nat) + 3 - 1) div 3 = 2" by simp_all
  note t = builder_count_days_partition[OF h, where fp = arith_exact and la = 0 and lo = 0 and els = sample_elements,
      unfolded Let_def n ar]
  from t have len: "length (handlePlan_places arith_exact 0 0 3 sample_elements) = 4"
    and d: "\<And>i. i < 4 \<Longrightarrow> day (handlePlan_places arith_exact 0 0 3 sample_elements ! i) = Day (i div 2)"
    and cc: "concat (createItineraryUI (Some 3) (handlePlan_places arith_exact 0 0 3 sample_elements)) =
             handlePlan_places arith_exact 0 0 3 sample_elements"
    by blast+
  show ?thesis
    using h len d[of 0] d[of 1] d[of 2] d[of 3] cc by (simp add: handlePlan_places_sample)
qed

subsection \<open>C2: save, then load\<close>

text \<open>
  Claim C2. For every valid trip, \<^verbatim>\<open>saveTrip\<close> stores the whole trip (places, destination,
  day count, mode) under the current trip key, and \<^verbatim>\<open>loadTrip\<close> with the same key then
  assigns to the four trip variables, whatever they held, the values of the saved trip.
  Two states with the same four values have the same places, destination, day count and
  mode, so the loaded trip equals the saved one by value.
\<close>

theorem save_then_load_roundtrip:
  assumes "valid_trip st"
  shows "(\<exists>k. currentTripKey st = Some k \<and>
              localStorage (saveTrip st) k = Some (JSON_stringify (trip_json st))) \<and>
         loadTrip (currentTripKey st) (localStorage (saveTrip st)) v = vars_of st \<and>
         (\<forall>st'. vars_of st' = vars_of st \<longrightarrow>
            places st' = places st \<and> currentDest st' = currentDest st \<and>
            currentDays st' = currentDays st \<and> currentMode st' = currentMode st)"
proof -
  from assms obtain k where k: "currentTripKey st = Some k" "k \<noteq> []" and
    m: "currentMode st \<noteq> []"
    by (auto simp: valid_trip_def split: option.splits)
  have sv: "localStorage (saveTrip st) k = Some (JSON_stringify (trip_json st))"
    using k by (simp add: saveTrip_def)
  have ne: "JSON_stringify (trip_json st) \<noteq> Empty" by (simp add: JSON_stringify_def)
  have ld: "loadTrip (currentTripKey st) (localStorage (saveTrip st)) v = vars_of st"
    using k sv ne loadTrip_try_saved[OF m] by (simp add: loadTrip_def)
  show ?thesis using k sv ld vars_of_inj by blast
qed

text \<open>The sample trip, saved and loaded into variables that held nothing.\<close>

theorem save_then_load_roundtrip_witness:
  "valid_trip sample_state \<and>
   localStorage (saveTrip sample_state) ''ann_trip_Rome_3'' =
     Some (JSON_stringify (trip_json sample_state)) \<and>
   loadTrip (Some ''ann_trip_Rome_3'') (localStorage (saveTrip sample_state))
     \<lparr>v_places = None, v_dest = None, v_days = None, v_mode = None\<rparr> = vars_of sample_state \<and>
   v_dest (vars_of sample_state) = Some (JStr ''Rome'') \<and>
   v_days (vars_of sample_state) = Some (JNum 3) \<and>
   v_mode (vars_of sample_state) = Some (JStr ''driving'') \<and>
   v_places (vars_of sample_state) = Some (JArr (map poi_json sample_places))"
proof -
  have key: "currentTripKey sample_state = Some ''ann_trip_Rome_3''"
    by (simp add: sample_state_def)
  note t = save_then_load_roundtrip[OF valid_sample_state,
      of "\<lparr>v_places = None, v_dest = None, v_days = None, v_mode = None\<rparr>", unfolded key]
  from t have "localStorage (saveTrip sample_state) ''ann_trip_Rome_3'' =
     Some (JSON_stringify (trip_json sample_state))"
    and "loadTrip (Some ''ann_trip_Rome_3'') (localStorage (saveTrip sample_state))
     \<lparr>v_places = None, v_dest = None, v_days = None, v_mode = None\<rparr> = vars_of sample_state"
    by simp_all
  moreover have "v_dest (vars_of sample_state) = Some (JStr ''Rome'')"
    "v_days (vars_of sample_state) = Some (JNum 3)"
    "v_mode (vars_of sample_state) = Some (JStr ''driving'')"
    "v_places (vars_of sample_state) = Some (JArr (map poi_json sample_places))"
    by (simp_all add: vars_of_def sample_state_def dest_json_def days_json_def)
  ultimately show ?thesis using valid_sample_state by simp
qed

subsection \<open>C3: reordering the days\<close>

text \<open>
  Claim C3. Let the day containers be left in an order that is a permutation of the days
  \<open>0, \<dots>, D - 1\<close>, and let every place lie on one of these days. Then the handler gives
  every place, in one pass over \<^verbatim>\<open>places\<close> with one table, the new position of the container
  of its old day and changes nothing else of it, so no place is left on its old index; and
  reordering again by the inverse order gives back the places as they were.
\<close>

theorem day_reorder_remaps_and_inverts:
  assumes "distinct order" "set order = {0..<D}"
    and "list_all (on_day_below D) (places st)"
  shows "length (places (dayContainers_onEnd order st)) = length (places st) \<and>
         (\<forall>i < length (places st). \<exists>d < D.
            day (places st ! i) = Day d \<and>
            places (dayContainers_onEnd order st) ! i =
              (places st ! i)\<lparr>day := Day (position d order)\<rparr> \<and>
            position d order < D \<and> order ! position d order = d) \<and>
         places (dayContainers_onEnd (inverse_order order) (dayContainers_onEnd order st)) =
           places st"
proof -
  have each: "\<exists>d < D. day p = Day d" if "p \<in> set (places st)" for p
  proof -
    have "on_day_below D p" using assms(3) that by (simp add: list_all_iff)
    then show ?thesis by (cases "day p") (simp_all add: on_day_below_def)
  qed
  have step: "\<exists>d < D. day (places st ! i) = Day d \<and>
            places (dayContainers_onEnd order st) ! i =
              (places st ! i)\<lparr>day := Day (position d order)\<rparr> \<and>
            position d order < D \<and> order ! position d order = d"
    if i: "i < length (places st)" for i
  proof -
    from each[of "places st ! i"] i obtain d where d: "d < D" "day (places st ! i) = Day d"
      by auto
    from remap_there_and_back[OF assms(1,2) d(1)] d i show ?thesis
      by (intro exI[of _ d]) (simp add: places_dayContainers_onEnd)
  qed
  have inv: "(p\<lparr>day := remap_day (day_mapping order) (day p)\<rparr>)
               \<lparr>day := remap_day (day_mapping (inverse_order order))
                         (remap_day (day_mapping order) (day p))\<rparr> = p"
    if "p \<in> set (places st)" for p
  proof -
    from each[OF that] obtain d where d: "d < D" "day p = Day d" by auto
    from remap_there_and_back[OF assms(1,2) d(1)] d show ?thesis by simp
  qed
  have "places (dayContainers_onEnd (inverse_order order) (dayContainers_onEnd order st)) =
        map (\<lambda>p. p) (places st)"
    unfolding places_dayContainers_onEnd map_map
    by (rule map_cong) (simp_all add: inv)
  then show ?thesis using step by (simp add: places_dayContainers_onEnd)
qed


text \<open>
  The sample trip with the container of day 2 dragged to the front, then put back.
\<close>

theorem day_reorder_remaps_and_inverts_witness:
  "distinct [2, 0, 1 :: nat] \<and> set [2, 0, 1 :: nat] = {0..<3} \<and>
   list_all (on_day_below 3) (places (createMarkers sample_state)) \<and>
   map day (places (dayContainers_onEnd [2, 0, 1] (createMarkers sample_state))) =
     [Day 1, Day 1, Day 2, Day 2] \<and>
   inverse_order [2, 0, 1] = [1, 2, 0] \<and>
   places (dayContainers_onEnd [1, 2, 0]
      (dayContainers_onEnd [2, 0, 1] (createMarkers sample_state))) =
     places (createMarkers sample_state)"
proof -
  let ?st = "createMarkers sample_state"
  have h1: "distinct [2, 0, 1 :: nat]" by simp
  have h2: "set [2, 0, 1 :: nat] = {0..<3}" by auto
  have h3: "list_all (on_day_below 3) (places ?st)"
    by (simp add: places_sample_state sample_places_def on_day_below_def)
  have io: "inverse_order [2, 0, 1] = [1, 2, 0]"
    by (simp add: inverse_order_def upt_rec)
  have ev: "map day (places (dayContainers_onEnd [2, 0, 1] ?st)) = [Day 1, Day 1, Day 2, Day 2]"
    by (simp add: places_dayContainers_onEnd places_sample_state sample_places_def
        day_mapping_def remap_day_def)
  note t = day_reorder_remaps_and_inverts[OF h1 h2 h3, unfolded io]
  from t have "places (dayContainers_onEnd [1, 2, 0] (dayContainers_onEnd [2, 0, 1] ?st)) =
     places ?st" by blast
  then show ?thesis using h1 h2 h3 io ev by blast
qed

subsection \<open>C4: toggling twice and the marker\<close>

text \<open>
  Claim C4 says that two calls of \<^verbatim>\<open>toggleVisited\<close> on the same id restore the visited flag
  and the marker of the place. The script restores the flag and loses the marker: on the
  sample trip with its markers drawn, the place with id 25 starts not visited with a
  marker, is visited without a marker after the first call, and is not visited and still
  without a marker after the second.
\<close>

theorem toggleVisited_twice_loses_marker:
  "visited (places (createMarkers sample_state) ! 1) = False \<and>
   markers (createMarkers sample_state) ''25'' =
     Some \<lparr>mk_lat = 0, mk_lon = 90, mk_color = ''#e74c3c''\<rparr> \<and>
   visited (places (toggleVisited ''25'' (createMarkers sample_state)) ! 1) = True \<and>
   markers (toggleVisited ''25'' (createMarkers sample_state)) ''25'' = None \<and>
   visited (places (toggleVisited ''25'' (toggleVisited ''25'' (createMarkers sample_state))) ! 1)
     = False \<and>
   markers (toggleVisited ''25'' (toggleVisited ''25'' (createMarkers sample_state))) ''25'' = None"
proof -
  let ?st0 = "createMarkers sample_state"
  let ?st1 = "toggleVisited ''25'' ?st0"
  have p0: "places ?st0 = sample_places" by (simp add: places_createMarkers sample_state_def)
  have p1: "places ?st1 = sample_places[1 := (sample_places ! 1)\<lparr>visited := True\<rparr>]"
    by (simp add: places_toggleVisited p0 sample_places_def)
  have m1: "markers ?st1 ''25'' = None"
    by (simp add: markers_toggleVisited p0 updateMarkerColors_def markers_sample
        sample_places_def)
  have f1: "find (\<lambda>pl. poi_id pl = ''25'') (places ?st1) =
            Some ((sample_places ! 1)\<lparr>visited := True\<rparr>)"
    by (simp add: p1 sample_places_def)
  have p2: "places (toggleVisited ''25'' ?st1) = sample_places"
    using places_toggleVisited_found[OF f1] by (simp add: p1 sample_places_def)
  have "dom (markers (toggleVisited ''25'' ?st1)) \<subseteq> dom (markers ?st1)"
    by (rule dom_markers_toggleVisited)
  then have m2: "markers (toggleVisited ''25'' ?st1) ''25'' = None" using m1 by blast
  show ?thesis
    using m1 m2 by (simp add: p0 p1 p2 markers_sample sample_places_def)
qed

subsection \<open>C5: moving a place changes that place only\<close>

text \<open>
  Claim C5. When a place is dropped on the list of day \<open>d\<close> and its id is present in the
  trip, the first place with that id gets day \<open>d\<close> and keeps its other fields, every other
  place is unchanged, the number and order of places are unchanged, destination, day
  count and mode are unchanged, and the stored payload is the trip after the move.
\<close>

theorem move_changes_one_place:
  assumes "x \<in> poi_id ` set (places st)"
  shows "(\<exists>i < length (places st).
            poi_id (places st ! i) = x \<and> (\<forall>j < i. poi_id (places st ! j) \<noteq> x) \<and>
            places (poiList_onEnd x d st) = (places st)[i := (places st ! i)\<lparr>day := Day d\<rparr>] \<and>
            day (places (poiList_onEnd x d st) ! i) = Day d \<and>
            (\<forall>j < length (places st). j \<noteq> i \<longrightarrow>
               places (poiList_onEnd x d st) ! j = places st ! j)) \<and>
         length (places (poiList_onEnd x d st)) = length (places st) \<and>
         currentDest (poiList_onEnd x d st) = currentDest st \<and>
         currentDays (poiList_onEnd x d st) = currentDays st \<and>
         currentMode (poiList_onEnd x d st) = currentMode st \<and>
         (\<forall>k. currentTripKey st = Some k \<and> k \<noteq> [] \<longrightarrow>
            localStorage (poiList_onEnd x d st) k =
              Some (JSON_stringify (trip_json (poiList_onEnd x d st))))"
proof -
  let ?P = "\<lambda>pl. poi_id pl = x"
  let ?f = "\<lambda>p. p\<lparr>day := Day d\<rparr>"
  from find_Some_ids[OF assms] obtain p where f: "find ?P (places st) = Some p" by blast
  from find_update_first[OF f, of ?f] obtain i where
    i: "i < length (places st)" "places st ! i = p" "poi_id p = x"
       "\<forall>j < i. poi_id (places st ! j) \<noteq> x"
       "update_first ?P ?f (places st) = (places st)[i := ?f p]"
    by blast
  have pl: "places (poiList_onEnd x d st) = (places st)[i := (places st ! i)\<lparr>day := Day d\<rparr>]"
    using f i by (simp add: places_poiList_onEnd)
  have first: "\<exists>i < length (places st).
            poi_id (places st ! i) = x \<and> (\<forall>j < i. poi_id (places st ! j) \<noteq> x) \<and>
            places (poiList_onEnd x d st) = (places st)[i := (places st ! i)\<lparr>day := Day d\<rparr>] \<and>
            day (places (poiList_onEnd x d st) ! i) = Day d \<and>
            (\<forall>j < length (places st). j \<noteq> i \<longrightarrow>
               places (poiList_onEnd x d st) ! j = places st ! j)"
    using i pl by (intro exI[of _ i]) simp
  have len: "length (places (poiList_onEnd x d st)) = length (places st)" using pl by simp
  have eq: "poiList_onEnd x d st =
        saveTrip (updateMarkerColors (st\<lparr>places := update_first ?P ?f (places st)\<rparr>))"
    using f by (simp add: poiList_onEnd_def)
  have flds: "currentDest (poiList_onEnd x d st) = currentDest st"
    "currentDays (poiList_onEnd x d st) = currentDays st"
    "currentMode (poiList_onEnd x d st) = currentMode st"
    by (simp_all add: eq trip_fields_saveTrip trip_fields_updateMarkerColors)
  have sv: "localStorage (poiList_onEnd x d st) k =
              Some (JSON_stringify (trip_json (poiList_onEnd x d st)))"
    if "currentTripKey st = Some k" "k \<noteq> []" for k
    unfolding eq using that
    by (intro stored_saveTrip) (simp_all add: trip_fields_updateMarkerColors)
  show ?thesis using first len flds sv by blast
qed

text \<open>Moving the place with id 20 of the sample trip to day 0.\<close>

theorem move_changes_one_place_witness:
  "''20'' \<in> poi_id ` set (places (createMarkers sample_state)) \<and>
   (\<exists>i < length (places (createMarkers sample_state)).
      poi_id (places (createMarkers sample_state) ! i) = ''20'' \<and>
      places (poiList_onEnd ''20'' 0 (createMarkers sample_state)) =
        (places (createMarkers sample_state))
          [i := (places (createMarkers sample_state) ! i)\<lparr>day := Day 0\<rparr>]) \<and>
   places (poiList_onEnd ''20'' 0 (createMarkers sample_state)) =
     sample_places[2 := (sample_places ! 2)\<lparr>day := Day 0\<rparr>] \<and>
   localStorage (poiList_onEnd ''20'' 0 (createMarkers sample_state)) ''ann_trip_Rome_3'' =
     Some (JSON_stringify (trip_json (poiList_onEnd ''20'' 0 (createMarkers sample_state))))"
proof -
  let ?st = "createMarkers sample_state"
  have h: "''20'' \<in> poi_id ` set (places ?st)"
    by (simp add: places_sample_state ids_sample)
  have key: "currentTripKey ?st = Some ''ann_trip_Rome_3'' \<and> ''ann_trip_Rome_3'' \<noteq> []"
    by (simp add: createMarkers_def sample_state_def)
  note t = move_changes_one_place[OF h, of 0]
  from t have ex: "\<exists>i < length (places ?st).
      poi_id (places ?st ! i) = ''20'' \<and>
      places (poiList_onEnd ''20'' 0 ?st) = (places ?st)[i := (places ?st ! i)\<lparr>day := Day 0\<rparr>]"
    by blast
  from t key have sv: "localStorage (poiList_onEnd ''20'' 0 ?st) ''ann_trip_Rome_3'' =
     Some (JSON_stringify (trip_json (poiList_onEnd ''20'' 0 ?st)))"
    by blast
  have ev: "places (poiList_onEnd ''20'' 0 ?st) =
     sample_places[2 := (sample_places ! 2)\<lparr>day := Day 0\<rparr>]"
    by (simp add: places_poiList_onEnd places_sample_state sample_places_def)
  show ?thesis using h ex sv ev by blast
qed

subsection \<open>C6: the builder sorts by distance, stably, before it selects\<close>

text \<open>
  Claim C6, as amended. When the distance the script computes for every surviving candidate
  is a number, the builder sorts the candidates by ascending distance from the origin
  before it selects and partitions, and candidates at the same distance keep the order of
  the answer. The sorted list is ascending and a permutation of the candidates; for every
  distance \<open>k\<close> the candidates at distance \<open>k\<close> appear in it in their input order; the
  distances of the places are those of the first sorted candidates; so whenever a place
  stands before another in \<^verbatim>\<open>places\<close> its distance is less or equal, and (for \<open>D \<ge> 1\<close>) its
  day is the same or an earlier one. This holds in every arithmetic.
\<close>

theorem builder_sorted_by_distance:
  assumes "list_all (\<lambda>c. is_number (fst c)) (with_distance fp la lo (surviving els))"
  shows "(let cs = with_distance fp la lo (surviving els);
              srt = sorted_elements fp la lo els;
              ps = handlePlan_places fp la lo D els;
              distance = (\<lambda>p. haversine fp la lo (lat p) (lon p))
          in sorted_wrt js_le (map fst srt) \<and> mset srt = mset cs \<and>
             (\<forall>k. filter (\<lambda>c. fst c = k) srt = filter (\<lambda>c. fst c = k) cs) \<and>
             map distance ps = map fst (take (length ps) srt) \<and>
             (\<forall>i j. i \<le> j \<and> j < length ps \<longrightarrow> js_le (distance (ps ! i)) (distance (ps ! j))) \<and>
             (\<forall>i j. 1 \<le> D \<and> i \<le> j \<and> j < length ps \<longrightarrow>
                (\<exists>a b. day (ps ! i) = Day a \<and> day (ps ! j) = Day b \<and> a \<le> b)))"
proof -
  let ?srt = "sorted_elements fp la lo els"
  let ?ps = "handlePlan_places fp la lo D els"
  let ?dist = "\<lambda>p. haversine fp la lo (lat p) (lon p)"
  have le: "length ?ps \<le> length ?srt"
    by (simp add: length_handlePlan_places length_sorted_elements)
  have m: "map ?dist ?ps = map fst (take (length ?ps) ?srt)"
    using le by (intro nth_equalityI) (simp_all add: distance_handlePlan_places)
  have num: "is_number (fst (?srt ! i))" if "i < length ?srt" for i
    using sorted_elements_numbers(2)[OF assms] that by (simp add: list_all_length)
  have srt: "sorted (map (\<lambda>c. SortCompare (fst c)) ?srt)"
    by (simp add: sorted_elements_numbers(1)[OF assms])
  have o: "js_le (?dist (?ps ! i)) (?dist (?ps ! j))" if "i \<le> j" "j < length ?ps" for i j
  proof -
    have ij: "i < length ?srt" "j < length ?srt" using that le by simp_all
    have "SortCompare (fst (?srt ! i)) \<le> SortCompare (fst (?srt ! j))"
      using srt that(1) ij by (simp add: sorted_iff_nth_mono)
    then have "js_le (fst (?srt ! i)) (fst (?srt ! j))"
      using num[OF ij(1)] num[OF ij(2)] by (simp add: js_le_numbers)
    then show ?thesis using that by (simp add: distance_handlePlan_places)
  qed
  have b: "\<exists>a b. day (?ps ! i) = Day a \<and> day (?ps ! j) = Day b \<and> a \<le> b"
    if "1 \<le> D" "i \<le> j" "j < length ?ps" for i j
  proof -
    have D: "0 < D" using that(1) by simp
    have "i < length ?ps" using that by simp
    then show ?thesis
      using that day_handlePlan_places[OF D] by (simp add: div_le_mono)
  qed
  show ?thesis
    unfolding Let_def
    using sorted_sorted_elements[OF assms] mset_sorted_elements stable_sorted_elements[OF assms]
      m o b by blast
qed

text \<open>
  On the sample answer in the exact arithmetic every distance is a number; the two places
  at the same distance keep the order of the answer (25 before 20), and the second place
  is no farther than the fourth.
\<close>

theorem builder_sorted_by_distance_witness:
  "list_all (\<lambda>c. is_number (fst c)) (with_distance arith_exact 0 0 (surviving sample_elements)) \<and>
   (1::nat) \<le> 3 \<and> 3 < length (handlePlan_places arith_exact 0 0 3 sample_elements) \<and>
   js_le (haversine arith_exact 0 0 (lat (sample_places ! 1)) (lon (sample_places ! 1)))
         (haversine arith_exact 0 0 (lat (sample_places ! 3)) (lon (sample_places ! 3))) \<and>
   (\<exists>a b. day (sample_places ! 1) = Day a \<and> day (sample_places ! 3) = Day b \<and> a \<le> b) \<and>
   map (c_id \<circ> snd)
     (filter (\<lambda>c. fst c = Num (6371 * pi / 2)) (sorted_elements arith_exact 0 0 sample_elements)) =
     [25, 20] \<and>
   map (c_id \<circ> snd)
     (filter (\<lambda>c. fst c = Num (6371 * pi / 2))
        (with_distance arith_exact 0 0 (surviving sample_elements))) = [25, 20] \<and>
   map poi_id (handlePlan_places arith_exact 0 0 3 sample_elements) = [''10'', ''25'', ''20'', ''30'']"
proof -
  have h: "list_all (\<lambda>c. is_number (fst c))
             (with_distance arith_exact 0 0 (surviving sample_elements))"
    by (simp add: distances_sample)
  note t = builder_sorted_by_distance[OF h, where D = 3,
      unfolded Let_def handlePlan_places_sample]
  have len: "3 < length sample_places" by (simp add: sample_places_def)
  from t have o: "\<And>i j. i \<le> j \<and> j < length sample_places \<Longrightarrow>
      js_le (haversine arith_exact 0 0 (lat (sample_places ! i)) (lon (sample_places ! i)))
            (haversine arith_exact 0 0 (lat (sample_places ! j)) (lon (sample_places ! j)))"
    and b: "\<And>i j. 1 \<le> (3::nat) \<and> i \<le> j \<and> j < length sample_places \<Longrightarrow>
      \<exists>a b. day (sample_places ! i) = Day a \<and> day (sample_places ! j) = Day b \<and> a \<le> b"
    and st: "\<And>k. filter (\<lambda>c. fst c = k) (sorted_elements arith_exact 0 0 sample_elements) =
      filter (\<lambda>c. fst c = k) (with_distance arith_exact 0 0 (surviving sample_elements))"
    by blast+
  have tie: "map (c_id \<circ> snd)
     (filter (\<lambda>c. fst c = Num (6371 * pi / 2))
        (with_distance arith_exact 0 0 (surviving sample_elements))) = [25, 20]"
    by (simp add: distances_sample)
  have ids: "map poi_id sample_places = [''10'', ''25'', ''20'', ''30'']"
    by (simp add: sample_places_def)
  show ?thesis
    using h o[of 1 3] b[of 1 3] st[of "Num (6371 * pi / 2)"] len tie ids
    by (simp add: handlePlan_places_sample)
qed

text \<open>
  Claim C6 as stated covers every answer. Between \<open>(8, 0)\<close> and its antipode \<open>(-8, 180)\<close>
  the sum \<^verbatim>\<open>a\<close> comes out above 1, \<^verbatim>\<open>Math.sqrt(1 - a)\<close> is \<^verbatim>\<open>NaN\<close> and so is the distance. The
  comparator returns \<^verbatim>\<open>NaN\<close> against it, which the sort reads as \<open>0\<close>. With the antipode
  second in the answer the places come out in the order of the answer, the place in the
  south before the place on the spot although it is farther; with the antipode first it
  stays first. In both, a place stands before another without its distance being less
  or equal.
\<close>

theorem builder_distance_order_counterexample:
  "haversine arith_add_up 8 0 (- 8) 180 = NaN \<and>
   map poi_id (handlePlan_places arith_add_up 8 0 1 antipode_elements) = [''2'', ''1'', ''3''] \<and>
   \<not> js_le
       (haversine arith_add_up 8 0
          (lat (handlePlan_places arith_add_up 8 0 1 antipode_elements ! 0))
          (lon (handlePlan_places arith_add_up 8 0 1 antipode_elements ! 0)))
       (haversine arith_add_up 8 0
          (lat (handlePlan_places arith_add_up 8 0 1 antipode_elements ! 2))
          (lon (handlePlan_places arith_add_up 8 0 1 antipode_elements ! 2))) \<and>
   \<not> js_le
       (haversine arith_add_up 8 0
          (lat (handlePlan_places arith_add_up 8 0 1 antipode_elements ! 0))
          (lon (handlePlan_places arith_add_up 8 0 1 antipode_elements ! 0)))
       (haversine arith_add_up 8 0
          (lat (handlePlan_places arith_add_up 8 0 1 antipode_elements ! 1))
          (lon (handlePlan_places arith_add_up 8 0 1 antipode_elements ! 1))) \<and>
   map poi_id (handlePlan_places arith_add_up 8 0 1 antipode_first_elements) =
     [''1'', ''3'', ''2''] \<and>
   \<not> js_le
       (haversine arith_add_up 8 0
          (lat (handlePlan_places arith_add_up 8 0 1 antipode_first_elements ! 0))
          (lon (handlePlan_places arith_add_up 8 0 1 antipode_first_elements ! 0)))
       (haversine arith_add_up 8 0
          (lat (handlePlan_places arith_add_up 8 0 1 antipode_first_elements ! 1))
          (lon (handlePlan_places arith_add_up 8 0 1 antipode_first_elements ! 1)))"
proof -
  from haversine_south obtain r where r: "0 < r" "haversine arith_add_up 8 0 (- 8) 0 = Num r"
    by blast
  from sorted_antipode obtain q where q: "sorted_elements arith_add_up 8 0 antipode_elements =
     [(Num q, \<lparr>c_id = 2, c_lat = - 8, c_lon = 0, c_tags = [(''name'', ''South'')],
        c_name = ''South''\<rparr>),
      (NaN, \<lparr>c_id = 1, c_lat = - 8, c_lon = 180, c_tags = [(''name'', ''Antipode'')],
        c_name = ''Antipode''\<rparr>),
      (Num 0, \<lparr>c_id = 3, c_lat = 8, c_lon = 0, c_tags = [(''name'', ''Here'')],
        c_name = ''Here''\<rparr>)]"
    by blast
  from sorted_antipode_first obtain q' where
    q': "sorted_elements arith_add_up 8 0 antipode_first_elements =
     [(NaN, \<lparr>c_id = 1, c_lat = - 8, c_lon = 180, c_tags = [(''name'', ''Antipode'')],
        c_name = ''Antipode''\<rparr>),
      (Num 0, \<lparr>c_id = 3, c_lat = 8, c_lon = 0, c_tags = [(''name'', ''Here'')],
        c_name = ''Here''\<rparr>),
      (Num q', \<lparr>c_id = 2, c_lat = - 8, c_lon = 0, c_tags = [(''name'', ''South'')],
        c_name = ''South''\<rparr>)]"
    by blast
  have p: "map (\<lambda>p. (poi_id p, lat p, lon p)) (handlePlan_places arith_add_up 8 0 1 antipode_elements) =
     [(''2'', - 8, 0), (''1'', - 8, 180), (''3'', 8, 0)]"
    by (simp add: handlePlan_places_def q Let_def enumerate_eq_zip upt_rec makePOI_def
        toString_sample)
  have p': "map (\<lambda>p. (poi_id p, lat p, lon p))
       (handlePlan_places arith_add_up 8 0 1 antipode_first_elements) =
     [(''1'', - 8, 180), (''3'', 8, 0), (''2'', - 8, 0)]"
    by (simp add: handlePlan_places_def q' Let_def enumerate_eq_zip upt_rec makePOI_def
        toString_sample)
  have n: "length (handlePlan_places arith_add_up 8 0 1 antipode_elements) = 3"
    "length (handlePlan_places arith_add_up 8 0 1 antipode_first_elements) = 3"
    using arg_cong[OF p, of length] arg_cong[OF p', of length] by simp_all
  have c0: "lat (handlePlan_places arith_add_up 8 0 1 antipode_elements ! 0) = - 8"
    "lon (handlePlan_places arith_add_up 8 0 1 antipode_elements ! 0) = 0"
    "lat (handlePlan_places arith_add_up 8 0 1 antipode_elements ! 1) = - 8"
    "lon (handlePlan_places arith_add_up 8 0 1 antipode_elements ! 1) = 180"
    "lat (handlePlan_places arith_add_up 8 0 1 antipode_elements ! 2) = 8"
    "lon (handlePlan_places arith_add_up 8 0 1 antipode_elements ! 2) = 0"
    using arg_cong[OF p, of "\<lambda>xs. xs ! 0"] arg_cong[OF p, of "\<lambda>xs. xs ! 1"]
      arg_cong[OF p, of "\<lambda>xs. xs ! 2"] n by simp_all
  have c1: "lat (handlePlan_places arith_add_up 8 0 1 antipode_first_elements ! 0) = - 8"
    "lon (handlePlan_places arith_add_up 8 0 1 antipode_first_elements ! 0) = 180"
    "lat (handlePlan_places arith_add_up 8 0 1 antipode_first_elements ! 1) = 8"
    "lon (handlePlan_places arith_add_up 8 0 1 antipode_first_elements ! 1) = 0"
    using arg_cong[OF p', of "\<lambda>xs. xs ! 0"] arg_cong[OF p', of "\<lambda>xs. xs ! 1"] n by simp_all
  have ids: "map poi_id (handlePlan_places arith_add_up 8 0 1 antipode_elements) =
      [''2'', ''1'', ''3'']"
    "map poi_id (handlePlan_places arith_add_up 8 0 1 antipode_first_elements) =
      [''1'', ''3'', ''2'']"
    using arg_cong[OF p, of "map fst"] arg_cong[OF p', of "map fst"] by (simp_all add: comp_def)
  show ?thesis
    unfolding c0 c1 using r ids by (simp add: haversine_antipode haversine_here)
qed

subsection \<open>C7: an unknown id\<close>

text \<open>
  Claim C7. When the id is not the id of any place, \<^verbatim>\<open>toggleVisited\<close> and the handler of a
  moved place return at once: the whole state (places, markers, stored texts) is what it
  was. Both are total functions, so nothing is raised.
\<close>

theorem unknown_id_noop:
  assumes "x \<notin> poi_id ` set (places st)"
  shows "toggleVisited x st = st \<and> poiList_onEnd x d st = st"
proof -
  have "find (\<lambda>pl. poi_id pl = x) (places st) = None"
    using assms by (simp add: find_None_ids)
  then show ?thesis by (simp add: toggleVisited_def poiList_onEnd_def)
qed

text \<open>No place of the sample trip has id 99.\<close>

theorem unknown_id_noop_witness:
  "''99'' \<notin> poi_id ` set (places (createMarkers sample_state)) \<and>
   toggleVisited ''99'' (createMarkers sample_state) = createMarkers sample_state \<and>
   poiList_onEnd ''99'' 1 (createMarkers sample_state) = createMarkers sample_state"
proof -
  have h: "''99'' \<notin> poi_id ` set (places (createMarkers sample_state))"
    by (simp add: places_sample_state ids_sample)
  show ?thesis using h unknown_id_noop[OF h, of 1] by simp
qed

subsection \<open>C8: a load that fails\<close>

text \<open>
  Claim C8, as amended. \<^verbatim>\<open>loadTrip\<close> never raises. When no trip key is set, when nothing is
  stored under the key, or when the stored string is empty or makes the \<^verbatim>\<open>try\<close> block throw
  before its first assignment (\<^verbatim>\<open>JSON.parse\<close> rejects it, or it parses to \<^verbatim>\<open>null\<close>), the
  four trip variables are left as they were.
\<close>

theorem load_failure_keeps_state:
  assumes "key = None \<or> key = Some [] \<or>
           (\<exists>k. key = Some k \<and>
                (store k = None \<or> store k = Some Empty \<or>
                 (\<exists>s e. store k = Some s \<and> loadTrip_try s = Inl e)))"
  shows "loadTrip key store v = v \<and>
         loadTrip_try Empty = Inl SyntaxError \<and>
         loadTrip_try Unparseable = Inl SyntaxError \<and>
         loadTrip_try (Parses JNull) = Inl TypeError"
proof -
  have "loadTrip key store v = v"
    using assms by (auto simp: loadTrip_def split: option.splits)
  then show ?thesis
    by (simp add: loadTrip_try_def JSON_parse_def get_prop_def)
qed

text \<open>An unparseable text under the key of the sample trip, and no text at all.\<close>

theorem load_failure_keeps_state_witness:
  "[''ann_trip_Rome_3'' \<mapsto> Unparseable] ''ann_trip_Rome_3'' = Some Unparseable \<and>
   loadTrip_try Unparseable = Inl SyntaxError \<and>
   loadTrip (Some ''ann_trip_Rome_3'') [''ann_trip_Rome_3'' \<mapsto> Unparseable]
     (vars_of sample_state) = vars_of sample_state \<and>
   loadTrip (Some ''ann_trip_Rome_3'') Map.empty (vars_of sample_state) = vars_of sample_state"
proof -
  have s: "[''ann_trip_Rome_3'' \<mapsto> Unparseable] ''ann_trip_Rome_3'' = Some Unparseable"
    by simp
  have e: "loadTrip_try Unparseable = Inl SyntaxError"
    by (simp add: loadTrip_try_def JSON_parse_def)
  have h1: "Some ''ann_trip_Rome_3'' = None \<or> Some ''ann_trip_Rome_3'' = Some [] \<or>
           (\<exists>k. Some ''ann_trip_Rome_3'' = Some k \<and>
                ([''ann_trip_Rome_3'' \<mapsto> Unparseable] k = None \<or>
                 [''ann_trip_Rome_3'' \<mapsto> Unparseable] k = Some Empty \<or>
                 (\<exists>s e. [''ann_trip_Rome_3'' \<mapsto> Unparseable] k = Some s \<and>
                        loadTrip_try s = Inl e)))"
    using s e by simp
  have h2: "Some ''ann_trip_Rome_3'' = None \<or> Some ''ann_trip_Rome_3'' = Some [] \<or>
           (\<exists>k. Some ''ann_trip_Rome_3'' = Some k \<and>
                (Map.empty k = None \<or> Map.empty k = Some Empty \<or>
                 (\<exists>s e. Map.empty k = Some s \<and> loadTrip_try s = Inl e)))"
    by simp
  note a = load_failure_keeps_state[OF h1, of "vars_of sample_state", THEN conjunct1]
  note b = load_failure_keeps_state[OF h2, of "vars_of sample_state", THEN conjunct1]
  show ?thesis using s e a b by blast
qed

text \<open>
  Claim C8 as stated covers every stored string that is not a well-formed payload. The
  script checks no shape: the text \<^verbatim>\<open>{}\<close> parses, so the load replaces the sample trip by
  an empty list of places with no destination and no day count, and the text
  \<^verbatim>\<open>{"places": 5}\<close> leaves the number 5 in \<^verbatim>\<open>places\<close>.
\<close>

theorem load_malformed_payload_counterexample:
  "\<not> well_formed_payload (Parses (JObj [])) \<and>
   \<not> well_formed_payload (Parses (JObj [(''places'', JNum 5)])) \<and>
   loadTrip (Some ''ann_trip_Rome_3'') [''ann_trip_Rome_3'' \<mapsto> Parses (JObj [])]
     (vars_of sample_state) =
     \<lparr>v_places = Some (JArr []), v_dest = None, v_days = None,
      v_mode = Some (JStr ''driving'')\<rparr> \<and>
   loadTrip (Some ''ann_trip_Rome_3'') [''ann_trip_Rome_3'' \<mapsto> Parses (JObj [])]
     (vars_of sample_state) \<noteq> vars_of sample_state \<and>
   loadTrip (Some ''ann_trip_Rome_3'')
     [''ann_trip_Rome_3'' \<mapsto> Parses (JObj [(''places'', JNum 5)])] (vars_of sample_state) =
     \<lparr>v_places = Some (JNum 5), v_dest = None, v_days = None,
      v_mode = Some (JStr ''driving'')\<rparr> \<and>
   loadTrip (Some ''ann_trip_Rome_3'')
     [''ann_trip_Rome_3'' \<mapsto> Parses (JObj [(''places'', JNum 5)])] (vars_of sample_state) \<noteq>
     vars_of sample_state"
  by (simp add: well_formed_payload_def loadTrip_def loadTrip_try_def JSON_parse_def
      get_prop_def js_or_def truthy_def vars_of_def)

subsection \<open>C9: no surviving candidate\<close>

text \<open>
  Claim C9. If no candidate survives the name filter, the builder returns, in every
  arithmetic, the empty list
  of places and every day list is empty. The builder is a total function, so nothing is
  raised; the bucket size \<open>\<lceil>0 / D\<rceil> = 0\<close> would make every day index non-finite, but no
  place exists to receive one.
\<close>

theorem builder_no_candidates:
  assumes "surviving els = []"
  shows "handlePlan_places fp la lo D els = [] \<and>
         concat (createItineraryUI (Some D) (handlePlan_places fp la lo D els)) = [] \<and>
         (\<forall>i. 1 \<le> D \<longrightarrow> dayIndex i (length (handlePlan_places fp la lo D els)) D = DayNonFinite)"
proof -
  have "length (handlePlan_places fp la lo D els) = 0"
    using assms by (simp add: length_handlePlan_places)
  then have "handlePlan_places fp la lo D els = []" by simp
  then show ?thesis by (simp add: createItineraryUI_def dayIndex_def)
qed

text \<open>An answer whose two elements have no name.\<close>

theorem builder_no_candidates_witness:
  "surviving [\<lparr>el_id = 40, el_lat = 0, el_lon = 0, el_tags = Some [(''tourism'', ''artwork'')]\<rparr>,
              \<lparr>el_id = 50, el_lat = 0, el_lon = 90, el_tags = None\<rparr>] = [] \<and>
   handlePlan_places arith_exact 0 0 3
     [\<lparr>el_id = 40, el_lat = 0, el_lon = 0, el_tags = Some [(''tourism'', ''artwork'')]\<rparr>,
      \<lparr>el_id = 50, el_lat = 0, el_lon = 90, el_tags = None\<rparr>] = []"
proof -
  have h: "surviving [\<lparr>el_id = 40, el_lat = 0, el_lon = 0,
                       el_tags = Some [(''tourism'', ''artwork'')]\<rparr>,
                      \<lparr>el_id = 50, el_lat = 0, el_lon = 90, el_tags = None\<rparr>] = []"
    by (simp add: surviving_def List.map_filter_simps named_def)
  show ?thesis using h builder_no_candidates[OF h, of arith_exact 0 0 3] by simp
qed

subsection \<open>C10: updateMarkerColors never adds a marker\<close>

text \<open>
  Claim C10. \<^verbatim>\<open>updateMarkerColors\<close> only shrinks the marker table: the ids with a marker
  after a call are those that had one before, less the ids of visited places; it creates
  no marker and leaves the places alone. So when a place that is not visited is toggled
  twice, its id has no marker afterwards although the places are what they were, and it
  has one again once \<^verbatim>\<open>createMarkers\<close> has rebuilt the table.
\<close>

theorem updateMarkerColors_never_adds:
  "dom (markers (updateMarkerColors st)) \<subseteq> dom (markers st) \<and>
   dom (markers (updateMarkerColors st)) =
     dom (markers st) - poi_id ` {p \<in> set (places st). visited p} \<and>
   places (updateMarkerColors st) = places st \<and>
   (\<forall>i p. find (\<lambda>pl. poi_id pl = i) (places st) = Some p \<and> \<not> visited p \<longrightarrow>
      markers (toggleVisited i (toggleVisited i st)) i = None \<and>
      places (toggleVisited i (toggleVisited i st)) = places st \<and>
      markers (createMarkers (toggleVisited i (toggleVisited i st))) i \<noteq> None)"
proof -
  have sub: "dom (markers (updateMarkerColors st)) \<subseteq> dom (markers st)"
    by (auto simp: dom_updateMarkerColors)
  show ?thesis
    using sub toggleVisited_twice
    by (simp add: dom_updateMarkerColors places_updateMarkerColors)
qed

text \<open>The sample trip with its markers drawn, toggling the place with id 25.\<close>

theorem updateMarkerColors_never_adds_witness:
  "find (\<lambda>pl. poi_id pl = ''25'') (places (createMarkers sample_state)) = Some (sample_places ! 1) \<and>
   \<not> visited (sample_places ! 1) \<and>
   markers (createMarkers sample_state) ''25'' \<noteq> None \<and>
   markers (toggleVisited ''25'' (toggleVisited ''25'' (createMarkers sample_state))) ''25'' = None \<and>
   markers (createMarkers
     (toggleVisited ''25'' (toggleVisited ''25'' (createMarkers sample_state)))) ''25'' \<noteq> None \<and>
   dom (markers (updateMarkerColors (createMarkers sample_state))) \<subseteq>
     dom (markers (createMarkers sample_state))"
proof -
  have nv: "\<not> visited (sample_places ! 1)" by (simp add: sample_places_def)
  have m: "markers (createMarkers sample_state) ''25'' \<noteq> None" by (simp add: markers_sample)
  note t = updateMarkerColors_never_adds[of "createMarkers sample_state"]
  from t have "markers (toggleVisited ''25'' (toggleVisited ''25'' (createMarkers sample_state)))
       ''25'' = None \<and>
     markers (createMarkers
       (toggleVisited ''25'' (toggleVisited ''25'' (createMarkers sample_state)))) ''25'' \<noteq> None"
    using find_sample nv by blast
  moreover from t have "dom (markers (updateMarkerColors (createMarkers sample_state))) \<subseteq>
     dom (markers (createMarkers sample_state))" by blast
  ultimately show ?thesis using find_sample nv m by blast
qed

end
